theory Spec2Isabelle
  imports Main "HOL-Library.Sublist"
begin

section \<open>Data model (src/types.ts)\<close>

text \<open>
  Strings of the program are modelled as \<^typ>\<open>string\<close>; a character stands for a
  UTF-16 code unit below 256. An optional field (\<^verbatim>\<open>newContent?: string\<close>) is an
  \<^typ>\<open>string option\<close>, \<^const>\<open>None\<close> being \<^verbatim>\<open>undefined\<close>.
\<close>

record ScannedFile =
  filePath :: string
  relativePath :: string
  content :: string

text \<open>
  The field \<^verbatim>\<open>action\<close> is declared \<^verbatim>\<open>'add' | 'modify' | 'delete'\<close>, but the value
  is parsed from the backend's JSON answer without a check, and \<^verbatim>\<open>applyFileChange\<close>
  has a branch for every other value: it is a string here.
\<close>

record ProposedFileChange =
  filePath :: string
  action :: string
  newContent :: "string option"
  reason :: "string option"

record LLMOutput =
  changes :: "ProposedFileChange list"
  summary :: string
  thoughtProcess :: "string option"

text \<open>The options object commander passes to the action of \<^verbatim>\<open>generate\<close>.\<close>

record options =
  path :: string
  scanDirs :: "string list option"
  scanFiles :: "string list option"
  yes :: bool
  noGit :: bool
  branch :: "string option"

section \<open>JavaScript values\<close>

text \<open>Truthiness of a string, and of a \<^verbatim>\<open>string | undefined\<close> or \<^verbatim>\<open>string | null\<close>.\<close>

definition truthy :: "string \<Rightarrow> bool" where
  "truthy s = (s \<noteq> [])"

definition truthy_opt :: "string option \<Rightarrow> bool" where
  "truthy_opt v = (case v of None \<Rightarrow> False | Some s \<Rightarrow> truthy s)"

text \<open>\<^verbatim>\<open>v || ''\<close> for an optional string.\<close>

definition or_empty :: "string option \<Rightarrow> string" where
  "or_empty v = (case v of None \<Rightarrow> [] | Some s \<Rightarrow> s)"

text \<open>\<^verbatim>\<open>s.includes(sub)\<close>.\<close>

fun str_includes :: "string \<Rightarrow> string \<Rightarrow> bool" where
  "str_includes [] sub = (sub = [])"
| "str_includes (c # cs) sub = (prefix sub (c # cs) \<or> str_includes cs sub)"

text \<open>\<^verbatim>\<open>s.substring(a, b)\<close> for non-negative integer arguments.\<close>

definition substring :: "nat \<Rightarrow> nat \<Rightarrow> string \<Rightarrow> string" where
  "substring a b s = (let lo = min a b; hi = max a b in take (hi - lo) (drop lo s))"

text \<open>
  \<^verbatim>\<open>s.toLowerCase()\<close> on code units below 256: the letters A to Z and the Latin-1
  capitals (0xC0 to 0xDE without the multiplication sign 0xD7) move up by 32.
\<close>

definition toLowerCase_char :: "char \<Rightarrow> char" where
  "toLowerCase_char c =
     (let n = (of_char c :: nat) in
      if (65 \<le> n \<and> n \<le> 90) \<or> (192 \<le> n \<and> n \<le> 222 \<and> n \<noteq> 215)
      then char_of (n + 32) else c)"

definition toLowerCase :: "string \<Rightarrow> string" where
  "toLowerCase s = map toLowerCase_char s"

section \<open>The default branch name (index.ts, generate action)\<close>

text \<open>The character class \<^verbatim>\<open>[a-z0-9]\<close>.\<close>

definition is_lower_alnum :: "char \<Rightarrow> bool" where
  "is_lower_alnum c =
     (let n = (of_char c :: nat) in (97 \<le> n \<and> n \<le> 122) \<or> (48 \<le> n \<and> n \<le> 57))"

text \<open>
  \<^verbatim>\<open>s.replace(/[^a-z0-9]+/g, '-')\<close>: the scan copies a character of the class, and at
  a character outside of it consumes the longest match of \<^verbatim>\<open>[^a-z0-9]+\<close> and emits
  one \<^verbatim>\<open>-\<close>.
\<close>

function replace_non_alnum :: "string \<Rightarrow> string" where
  "replace_non_alnum [] = []"
| "replace_non_alnum (c # cs) =
     (if is_lower_alnum c then c # replace_non_alnum cs
      else CHR ''-'' # replace_non_alnum (dropWhile (\<lambda>d. \<not> is_lower_alnum d) cs))"
  by pat_completeness auto
termination
  by (relation "measure length") (auto simp: length_dropWhile_le less_Suc_eq_le)

text \<open>
  \<^verbatim>\<open>`feature/${prompt.toLowerCase().replace(/[^a-z0-9]+/g, '-')}`.substring(0, 50)\<close>,
  written twice in the action: as the default of the branch-name prompt and as the name
  of the branch created under \<^verbatim>\<open>--yes\<close>.
\<close>

definition defaultBranchSuggestion :: "string \<Rightarrow> string" where
  "defaultBranchSuggestion prompt =
     substring 0 50 (''feature/'' @ replace_non_alnum (toLowerCase prompt))"

subsection \<open>The specification's wording of the collapse\<close>

text \<open>
  The maximal runs of a string with respect to a class \<open>P\<close>: the longest blocks on which
  membership in \<open>P\<close> does not change.
\<close>

function runs :: "('a \<Rightarrow> bool) \<Rightarrow> 'a list \<Rightarrow> 'a list list" where
  "runs P [] = []"
| "runs P (x # xs) =
     (x # takeWhile (\<lambda>y. P y = P x) xs) # runs P (dropWhile (\<lambda>y. P y = P x) xs)"
  by pat_completeness auto
termination
  by (relation "measure (\<lambda>(P, xs). length xs)") (auto simp: length_dropWhile_le less_Suc_eq_le)

text \<open>
  Every maximal run of characters outside \<^verbatim>\<open>[a-z0-9]\<close> becomes a single separator;
  the other runs stay.
\<close>

definition collapse_runs :: "string \<Rightarrow> string" where
  "collapse_runs s =
     concat (map (\<lambda>r. if list_all is_lower_alnum r then r else ''-'') (runs is_lower_alnum s))"

section \<open>The collaborators and the trace of a run\<close>

text \<open>
  One part of the result of \<^verbatim>\<open>Diff.diffLines\<close> (package \<^verbatim>\<open>diff\<close>): its text and the
  optional flags \<^verbatim>\<open>added\<close> and \<^verbatim>\<open>removed\<close>.
\<close>

record Change =
  val :: string
  added :: "bool option"
  removed :: "bool option"

datatype colour = Green | Red | Grey

text \<open>The values of the choices of the decision prompt: yes, no, all, abort.\<close>

datatype confirm_value = Confirm_yes | Confirm_no | Confirm_all | Confirm_abort

text \<open>The three places where a checkout is requested from simple-git.\<close>

datatype checkout_site = In_try | In_catch | Revert

datatype git_command =
    CheckIsRepo
  | BranchLocal
  | Branch string
  | Checkout string
  | Add "string list"

datatype backend_call =
    ScanProject "string list" string
  | CallLLM string string "ScannedFile list" "string list"
  | CreateFile string bool string
  | WriteFile string string
  | DeleteFile string

text \<open>
  Everything outside of the repository that a run of \<^verbatim>\<open>generate\<close> consults: the
  libraries (path, diff, chalk), the token store, the user at the prompts, simple-git and
  the backend. A call that can throw answers \<open>Inl message\<close> for \<^verbatim>\<open>Error(message)\<close>.
  The answer to the decision prompt is indexed by the position of the change in the
  batch, the answer of a file operation by the position of the change in the list of
  confirmed changes.
\<close>

record world =
  cwd :: string
  path_resolve :: "string \<Rightarrow> string \<Rightarrow> string"
  path_relative :: "string \<Rightarrow> string \<Rightarrow> string"
  diffLines :: "string \<Rightarrow> string \<Rightarrow> Change list"
  chalk :: "colour \<Rightarrow> string \<Rightarrow> string"
  getAuthToken :: "string + bool"
  git_checkIsRepo :: "string + bool"
  git_branchLocal :: "string + string"
  git_branch :: "string \<Rightarrow> string + unit"
  git_checkout :: "checkout_site \<Rightarrow> string \<Rightarrow> string + unit"
  git_add :: "string list \<Rightarrow> string + unit"
  proceedGit :: bool
  branchNameInput :: "string \<Rightarrow> string"
  confirm :: "nat \<Rightarrow> confirm_value"
  scanProject :: "string list \<Rightarrow> string \<Rightarrow> string + ScannedFile list"
  callLLM :: "string \<Rightarrow> string \<Rightarrow> ScannedFile list \<Rightarrow> string list \<Rightarrow> string + LLMOutput"
  createFile :: "nat \<Rightarrow> string \<Rightarrow> bool \<Rightarrow> string \<Rightarrow> string + unit"
  writeFile :: "nat \<Rightarrow> string \<Rightarrow> string \<Rightarrow> string + unit"
  deleteFile :: "nat \<Rightarrow> string \<Rightarrow> string + unit"

text \<open>
  The trace of a run: the prompts shown (the decision prompt with the path it displays
  and the value it returned), the calls of \<^verbatim>\<open>createBranch\<close>,
  \<^verbatim>\<open>applyFileChange\<close> and \<^verbatim>\<open>stageFiles\<close>, the commands given to simple-git, the
  requests sent to the backend, the diff printed for a modification, and the reports of
  the action and of \<^verbatim>\<open>applyFileChange\<close> on \<^verbatim>\<open>console.warn\<close> and
  \<^verbatim>\<open>console.error\<close>. The other lines written to the console are left out.
\<close>

datatype event =
    Prompt_proceedGit
  | Prompt_branchNameInput string
  | Prompt_confirm string confirm_value
  | Call_createBranch string string
  | Call_applyFileChange string ProposedFileChange
  | Call_stageFiles string "string list"
  | Git git_command
  | Backend backend_call
  | Show_diff string
  | Console_warn string
  | Console_error string

text \<open>
  How the action ends: the four \<^verbatim>\<open>return\<close>s of the \<^verbatim>\<open>try\<close> block (no change
  proposed, abort chosen, no change confirmed, end of the block) and \<^verbatim>\<open>process.exit(1)\<close>.
\<close>

datatype outcome =
    NoChangesProposed
  | Aborted
  | NoChangesConfirmed
  | Done
  | Failed string

section \<open>file-operations/diffGenerator.ts\<close>

text \<open>\<^verbatim>\<open>s.split('\n')\<close> and \<^verbatim>\<open>lines.join('\n')\<close>.\<close>

fun split_on :: "char \<Rightarrow> string \<Rightarrow> string list" where
  "split_on d [] = [[]]"
| "split_on d (c # cs) =
     (if c = d then [] # split_on d cs
      else (case split_on d cs of [] \<Rightarrow> [[c]] | l # ls \<Rightarrow> (c # l) # ls))"

fun join :: "string \<Rightarrow> string list \<Rightarrow> string" where
  "join sep [] = []"
| "join sep [l] = l"
| "join sep (l # m # ls) = l @ sep @ join sep (m # ls)"

definition newline :: char where
  "newline = CHR 0x0A"

text \<open>A flag of a part is truthy when it is present and true.\<close>

definition flag :: "bool option \<Rightarrow> bool" where
  "flag v = (v = Some True)"

definition part_colour :: "Change \<Rightarrow> colour" where
  "part_colour part = (if flag (added part) then Green else if flag (removed part) then Red else Grey)"

definition part_prefix :: "Change \<Rightarrow> string" where
  "part_prefix part = (if flag (added part) then ''+ '' else if flag (removed part) then ''- '' else ''  '')"

definition render_part :: "world \<Rightarrow> Change \<Rightarrow> string" where
  "render_part w part =
     chalk w (part_colour part)
       (join [newline] (map (\<lambda>line. part_prefix part @ line) (split_on newline (val part))))"

definition generateUnifiedDiff :: "world \<Rightarrow> string \<Rightarrow> string \<Rightarrow> string" where
  "generateUnifiedDiff w originalContent newText =
     (let diff = diffLines w originalContent newText in
      if length diff = 1 \<and> added (diff ! 0) = None \<and> removed (diff ! 0) = None then []
      else fold (\<lambda>part diffString. diffString @ render_part w part) diff [])"

section \<open>file-operations/fileApplier.ts\<close>

text \<open>
  \<^verbatim>\<open>applyFileChange\<close> for the change at position \<open>k\<close> of the confirmed changes. The
  result is the trace of the call and \<open>Inl message\<close> when the backend call threw.
\<close>

definition applyFileChange ::
  "world \<Rightarrow> nat \<Rightarrow> string \<Rightarrow> ProposedFileChange \<Rightarrow> event list \<times> (string + unit)" where
  "applyFileChange w k projectRoot change =
     (let absoluteFilePath = path_resolve w projectRoot (ProposedFileChange.filePath change) in
      if action change = ''add'' then
        ([Backend (CreateFile absoluteFilePath False (or_empty (newContent change)))],
         createFile w k absoluteFilePath False (or_empty (newContent change)))
      else if action change = ''modify'' then
        ([Backend (WriteFile absoluteFilePath (or_empty (newContent change)))],
         writeFile w k absoluteFilePath (or_empty (newContent change)))
      else if action change = ''delete'' then
        ([Backend (DeleteFile absoluteFilePath)], deleteFile w k absoluteFilePath)
      else
        ([Console_warn (''Unknown action type for change: '' @ action change @ ''. Skipping.'')],
         Inr ()))"

section \<open>git-operations/gitManager.ts\<close>

definition isGitRepository :: "world \<Rightarrow> bool" where
  "isGitRepository w = (case git_checkIsRepo w of Inl e \<Rightarrow> False | Inr b \<Rightarrow> True)"

definition getCurrentBranch :: "world \<Rightarrow> string option" where
  "getCurrentBranch w = (case git_branchLocal w of Inl e \<Rightarrow> None | Inr current \<Rightarrow> Some current)"

text \<open>The \<^verbatim>\<open>catch\<close> block of \<^verbatim>\<open>createBranch\<close>.\<close>

definition createBranch_catch ::
  "world \<Rightarrow> string \<Rightarrow> string \<Rightarrow> event list \<times> (string + unit)" where
  "createBranch_catch w branchName message =
     (if str_includes message ''A branch named'' \<and> str_includes message ''already exists''
      then ([Git (Checkout branchName)], git_checkout w In_catch branchName)
      else ([], Inl message))"

definition createBranch :: "world \<Rightarrow> string \<Rightarrow> string \<Rightarrow> event list \<times> (string + unit)" where
  "createBranch w repoPath branchName =
     (case git_branch w branchName of
        Inl message \<Rightarrow>
          (let (evs, r) = createBranch_catch w branchName message
           in (Git (Branch branchName) # evs, r))
      | Inr u \<Rightarrow>
          (case git_checkout w In_try branchName of
             Inl message \<Rightarrow>
               (let (evs, r) = createBranch_catch w branchName message
                in (Git (Branch branchName) # Git (Checkout branchName) # evs, r))
           | Inr u \<Rightarrow> ([Git (Branch branchName), Git (Checkout branchName)], Inr ())))"

definition stageFiles :: "world \<Rightarrow> string \<Rightarrow> string list \<Rightarrow> event list \<times> (string + unit)" where
  "stageFiles w repoPath filePaths =
     (let relativePaths = map (path_relative w repoPath) filePaths
      in ([Git (Add relativePaths)], git_add w relativePaths))"

section \<open>index.ts: the action of the command generate\<close>

definition allScanPaths :: "options \<Rightarrow> string list" where
  "allScanPaths opts =
     (let a = (case scanDirs opts of None \<Rightarrow> [] | Some ds \<Rightarrow> if length ds > 0 then [] @ ds else []);
          b = (case scanFiles opts of None \<Rightarrow> a | Some fs \<Rightarrow> if length fs > 0 then a @ fs else a)
      in if length b = 0 then [''.''] else b)"

subsection \<open>The Git pre-check\<close>

text \<open>
  The block that starts at \<^verbatim>\<open>if (!skipGit)\<close>. It answers the options object as the block
  leaves it, \<^verbatim>\<open>isGitRepo\<close> and \<^verbatim>\<open>originalBranch\<close>, or the message of the error
  thrown by \<^verbatim>\<open>createBranch\<close>.
\<close>

definition preflight ::
  "world \<Rightarrow> string \<Rightarrow> string \<Rightarrow> options
     \<Rightarrow> event list \<times> (string + options \<times> bool \<times> string option)" where
  "preflight w prompt projectRoot opts =
     (let autoConfirm = yes opts; skipGit = noGit opts; customBranchName = branch opts in
      if \<not> skipGit then
        (if isGitRepository w then
           (let originalBranch = getCurrentBranch w in
            if \<not> autoConfirm then
              (if \<not> proceedGit w then
                 ([Git CheckIsRepo, Git BranchLocal, Prompt_proceedGit],
                  Inr (opts\<lparr>noGit := True\<rparr>, True, originalBranch))
               else
                 (let (evs1, opts1) =
                        (if \<not> truthy_opt customBranchName
                         then ([Prompt_branchNameInput (defaultBranchSuggestion prompt)],
                               opts\<lparr>branch := Some (branchNameInput w (defaultBranchSuggestion prompt))\<rparr>)
                         else ([], opts));
                      (evs2, r) = createBranch w projectRoot (or_empty (branch opts1))
                  in ([Git CheckIsRepo, Git BranchLocal, Prompt_proceedGit] @ evs1
                        @ [Call_createBranch projectRoot (or_empty (branch opts1))] @ evs2,
                      case r of Inl e \<Rightarrow> Inl e | Inr u \<Rightarrow> Inr (opts1, True, originalBranch))))
            else
              (let opts1 = (if \<not> noGit opts \<and> \<not> truthy_opt customBranchName
                            then opts\<lparr>branch := Some (defaultBranchSuggestion prompt)\<rparr>
                            else opts)
               in if \<not> noGit opts1 \<and> truthy_opt (branch opts1) then
                    (let (evs2, r) = createBranch w projectRoot (or_empty (branch opts1))
                     in ([Git CheckIsRepo, Git BranchLocal,
                          Call_createBranch projectRoot (or_empty (branch opts1))] @ evs2,
                         case r of Inl e \<Rightarrow> Inl e | Inr u \<Rightarrow> Inr (opts1, True, originalBranch)))
                  else ([Git CheckIsRepo, Git BranchLocal], Inr (opts1, True, originalBranch))))
         else ([Git CheckIsRepo], Inr (opts\<lparr>noGit := True\<rparr>, False, None)))
      else ([], Inr (opts, False, None)))"

subsection \<open>The review loop\<close>

text \<open>The map filled from the scanned files; a later file of the same path wins.\<close>

definition originalFileContents :: "ScannedFile list \<Rightarrow> (string \<rightharpoonup> string)" where
  "originalFileContents scannedFiles =
     fold (\<lambda>file m. m(ScannedFile.filePath file \<mapsto> content file)) scannedFiles Map.empty"

text \<open>
  What the loop shows for a change before it asks. The flag is true when the loop goes
  on to the next change at once (the \<^verbatim>\<open>continue\<close> of the branch for \<^verbatim>\<open>modify\<close>).
\<close>

definition present ::
  "world \<Rightarrow> (string \<rightharpoonup> string) \<Rightarrow> ProposedFileChange \<Rightarrow> event list \<times> bool" where
  "present w orig change =
     (if action change = ''add'' then ([], False)
      else if action change = ''modify'' then
        (let originalContent = or_empty (orig (ProposedFileChange.filePath change));
             diff = generateUnifiedDiff w originalContent (or_empty (newContent change))
         in if truthy diff then ([Show_diff diff], False) else ([], True))
      else ([], False))"

text \<open>
  The variables the loop writes: the two lists and the options object (the choice
  \<^verbatim>\<open>all\<close> sets \<^verbatim>\<open>options.yes\<close>).
\<close>

record review_state =
  changesToApply :: "ProposedFileChange list"
  filesModifiedOrAdded :: "string list"
  optionsObj :: options

definition push :: "ProposedFileChange \<Rightarrow> review_state \<Rightarrow> review_state" where
  "push change st =
     st\<lparr>changesToApply := changesToApply st @ [change],
        filesModifiedOrAdded := filesModifiedOrAdded st @ [ProposedFileChange.filePath change]\<rparr>"

definition prepend :: "event list \<Rightarrow> event list \<times> 'a \<Rightarrow> event list \<times> 'a" where
  "prepend evs r = (evs @ fst r, snd r)"

text \<open>
  The loop over \<^verbatim>\<open>llmOutput.changes\<close>, from position \<open>i\<close> on. \<^verbatim>\<open>autoConfirm\<close> is the
  constant read from \<^verbatim>\<open>options.yes\<close> before the \<^verbatim>\<open>try\<close> block. The last component of
  the result is true when the loop was left by the choice \<^verbatim>\<open>abort\<close>.
\<close>

fun review ::
  "world \<Rightarrow> bool \<Rightarrow> string \<Rightarrow> (string \<rightharpoonup> string) \<Rightarrow> nat \<Rightarrow> ProposedFileChange list
     \<Rightarrow> review_state \<Rightarrow> event list \<times> review_state \<times> bool" where
  "review w autoConfirm projectRoot orig i [] st = ([], st, False)"
| "review w autoConfirm projectRoot orig i (change # rest) st =
     (case present w orig change of
        (evs, True) \<Rightarrow> prepend evs (review w autoConfirm projectRoot orig (Suc i) rest st)
      | (evs, False) \<Rightarrow>
          (if autoConfirm then
             prepend evs (review w autoConfirm projectRoot orig (Suc i) rest (push change st))
           else
             prepend
               (evs @ [Prompt_confirm
                         (path_relative w projectRoot (ProposedFileChange.filePath change))
                         (confirm w i)])
               (case confirm w i of
                  Confirm_yes \<Rightarrow> review w autoConfirm projectRoot orig (Suc i) rest (push change st)
                | Confirm_all \<Rightarrow>
                    review w autoConfirm projectRoot orig (Suc i) rest
                      ((push change st)\<lparr>optionsObj := (optionsObj st)\<lparr>yes := True\<rparr>\<rparr>)
                | Confirm_abort \<Rightarrow> ([], st, True)
                | Confirm_no \<Rightarrow> review w autoConfirm projectRoot orig (Suc i) rest st)))"

subsection \<open>Reverting, applying, staging\<close>

text \<open>
  The checkout of the original branch, written after the choice \<^verbatim>\<open>abort\<close> and again
  where no change was confirmed.
\<close>

definition revert_branch ::
  "world \<Rightarrow> options \<Rightarrow> bool \<Rightarrow> string option \<Rightarrow> event list \<times> (string + unit)" where
  "revert_branch w opts isGitRepo originalBranch =
     (if isGitRepo \<and> \<not> noGit opts \<and> truthy_opt (branch opts) \<and> truthy_opt originalBranch
      then ([Git (Checkout (or_empty originalBranch))],
            git_checkout w Revert (or_empty originalBranch))
      else ([], Inr ()))"

text \<open>The loop over \<^verbatim>\<open>changesToApply\<close>, from position \<open>k\<close> on, with its \<^verbatim>\<open>try/catch\<close>.\<close>

fun apply_loop :: "world \<Rightarrow> string \<Rightarrow> nat \<Rightarrow> ProposedFileChange list \<Rightarrow> event list" where
  "apply_loop w projectRoot k [] = []"
| "apply_loop w projectRoot k (change # rest) =
     (case applyFileChange w k projectRoot change of
        (evs, r) \<Rightarrow>
          Call_applyFileChange projectRoot change # evs
            @ (case r of
                 Inl message \<Rightarrow>
                   [Console_error (''Failed to apply change for ''
                      @ ProposedFileChange.filePath change @ '': '' @ message)]
               | Inr u \<Rightarrow> [])
            @ apply_loop w projectRoot (Suc k) rest)"

text \<open>The \<^verbatim>\<open>catch\<close> block of the action.\<close>

definition fail :: "event list \<Rightarrow> string \<Rightarrow> event list \<times> outcome" where
  "fail evs message = (evs @ [Console_error (''Error during generation: '' @ message)], Failed message)"

text \<open>The action from the review loop to its end.\<close>

definition review_and_apply ::
  "world \<Rightarrow> bool \<Rightarrow> string \<Rightarrow> options \<Rightarrow> bool \<Rightarrow> string option \<Rightarrow> (string \<rightharpoonup> string)
     \<Rightarrow> ProposedFileChange list \<Rightarrow> event list \<times> outcome" where
  "review_and_apply w autoConfirm projectRoot opts1 isGitRepo originalBranch orig cs =
     (case review w autoConfirm projectRoot orig 0 cs
             \<lparr>changesToApply = [], filesModifiedOrAdded = [], optionsObj = opts1\<rparr> of
        (evs, st, True) \<Rightarrow>
          (case revert_branch w (optionsObj st) isGitRepo originalBranch of
             (evs', Inl e) \<Rightarrow> fail (evs @ evs') e
           | (evs', Inr u) \<Rightarrow> (evs @ evs', Aborted))
      | (evs, st, False) \<Rightarrow>
          (if length (changesToApply st) = 0 then
             (case revert_branch w (optionsObj st) isGitRepo originalBranch of
                (evs', Inl e) \<Rightarrow> fail (evs @ evs') e
              | (evs', Inr u) \<Rightarrow> (evs @ evs', NoChangesConfirmed))
           else
             (let evs2 = apply_loop w projectRoot 0 (changesToApply st) in
              if isGitRepo \<and> \<not> noGit (optionsObj st) then
                (case stageFiles w projectRoot (filesModifiedOrAdded st) of
                   (evs3, Inl e) \<Rightarrow>
                     fail (evs @ evs2
                             @ Call_stageFiles projectRoot (filesModifiedOrAdded st) # evs3) e
                 | (evs3, Inr u) \<Rightarrow>
                     (evs @ evs2 @ Call_stageFiles projectRoot (filesModifiedOrAdded st) # evs3,
                      Done))
              else (evs @ evs2, Done))))"

text \<open>The whole action.\<close>

definition generate :: "world \<Rightarrow> string \<Rightarrow> options \<Rightarrow> event list \<times> outcome" where
  "generate w prompt options0 =
     (let projectRoot = path_resolve w (cwd w) (path options0);
          scanPaths = allScanPaths options0;
          autoConfirm = yes options0
      in case getAuthToken w of
           Inl e \<Rightarrow> fail [] e
         | Inr False \<Rightarrow>
             ([Console_error
                 ''Error: You are not logged in. Please run `aicli login <provider>` first.''],
              Failed ''Error: You are not logged in. Please run `aicli login <provider>` first.'')
         | Inr True \<Rightarrow>
             (case preflight w prompt projectRoot options0 of
                (evs1, Inl e) \<Rightarrow> fail evs1 e
              | (evs1, Inr (opts1, isGitRepo, originalBranch)) \<Rightarrow>
                  (case scanProject w scanPaths projectRoot of
                     Inl e \<Rightarrow> fail (evs1 @ [Backend (ScanProject scanPaths projectRoot)]) e
                   | Inr scannedFiles \<Rightarrow>
                       (case callLLM w prompt projectRoot scannedFiles scanPaths of
                          Inl e \<Rightarrow>
                            fail (evs1 @ [Backend (ScanProject scanPaths projectRoot),
                                          Backend (CallLLM prompt projectRoot scannedFiles scanPaths)]) e
                        | Inr llmOutput \<Rightarrow>
                            (if length (changes llmOutput) = 0 then
                               (evs1 @ [Backend (ScanProject scanPaths projectRoot),
                                        Backend (CallLLM prompt projectRoot scannedFiles scanPaths)],
                                NoChangesProposed)
                             else
                               prepend
                                 (evs1 @ [Backend (ScanProject scanPaths projectRoot),
                                          Backend (CallLLM prompt projectRoot scannedFiles scanPaths)])
                                 (review_and_apply w autoConfirm projectRoot opts1 isGitRepo
                                    originalBranch (originalFileContents scannedFiles)
                                    (changes llmOutput)))))))"

section \<open>Observations on a trace\<close>

text \<open>
  Classes of events, one for each phase of the action: what the review loop writes, what
  can be written before the review loop (and by the \<^verbatim>\<open>catch\<close> block), what simple-git
  is asked, and what the loop over the confirmed changes writes.
\<close>

fun is_review_event :: "event \<Rightarrow> bool" where
  "is_review_event (Show_diff d) = True"
| "is_review_event (Prompt_confirm p a) = True"
| "is_review_event e = False"

fun is_early :: "event \<Rightarrow> bool" where
  "is_early Prompt_proceedGit = True"
| "is_early (Prompt_branchNameInput d) = True"
| "is_early (Call_createBranch r n) = True"
| "is_early (Git c) = True"
| "is_early (Backend (ScanProject ps r)) = True"
| "is_early (Backend (CallLLM p r fs ps)) = True"
| "is_early (Console_error m) = True"
| "is_early e = False"

fun is_git :: "event \<Rightarrow> bool" where
  "is_git (Git c) = True"
| "is_git e = False"

fun is_apply_event :: "event \<Rightarrow> bool" where
  "is_apply_event (Call_applyFileChange r c) = True"
| "is_apply_event (Backend (CreateFile p d c)) = True"
| "is_apply_event (Backend (WriteFile p c)) = True"
| "is_apply_event (Backend (DeleteFile p)) = True"
| "is_apply_event (Console_warn m) = True"
| "is_apply_event (Console_error m) = True"
| "is_apply_event e = False"

text \<open>
  Projections of a trace: the changes \<^verbatim>\<open>applyFileChange\<close> was called with, the file
  operations sent to the backend, and the lists \<^verbatim>\<open>stageFiles\<close> was called with, each in
  the order of the trace.
\<close>

fun apply_call :: "event \<Rightarrow> ProposedFileChange list" where
  "apply_call (Call_applyFileChange r c) = [c]"
| "apply_call e = []"

definition apply_calls :: "event list \<Rightarrow> ProposedFileChange list" where
  "apply_calls trace = concat (map apply_call trace)"

fun file_op :: "event \<Rightarrow> backend_call list" where
  "file_op (Backend (CreateFile p d c)) = [CreateFile p d c]"
| "file_op (Backend (WriteFile p c)) = [WriteFile p c]"
| "file_op (Backend (DeleteFile p)) = [DeleteFile p]"
| "file_op e = []"

definition file_ops :: "event list \<Rightarrow> backend_call list" where
  "file_ops trace = concat (map file_op trace)"

fun stage_call :: "event \<Rightarrow> string list list" where
  "stage_call (Call_stageFiles r ps) = [ps]"
| "stage_call e = []"

definition stage_calls :: "event list \<Rightarrow> string list list" where
  "stage_calls trace = concat (map stage_call trace)"

subsection \<open>Names for parts of the action\<close>

text \<open>
  \<^verbatim>\<open>projectRoot\<close> as the action computes it, and the variables of the review loop as
  they are before the first change.
\<close>

definition root_of :: "world \<Rightarrow> options \<Rightarrow> string" where
  "root_of w options0 = path_resolve w (cwd w) (path options0)"

definition state0 :: "options \<Rightarrow> review_state" where
  "state0 opts1 = \<lparr>changesToApply = [], filesModifiedOrAdded = [], optionsObj = opts1\<rparr>"

text \<open>
  The specification's \<^verbatim>\<open>appliedPaths\<close>: the paths of those changes, in order, whose
  call of \<^verbatim>\<open>applyFileChange\<close> (at positions \<open>k\<close>, \<open>k + 1\<close>, ...) returned without an
  error.
\<close>

fun succeeded_paths :: "world \<Rightarrow> string \<Rightarrow> nat \<Rightarrow> ProposedFileChange list \<Rightarrow> string list" where
  "succeeded_paths w projectRoot k [] = []"
| "succeeded_paths w projectRoot k (change # rest) =
     (case snd (applyFileChange w k projectRoot change) of
        Inl message \<Rightarrow> []
      | Inr u \<Rightarrow> [ProposedFileChange.filePath change])
     @ succeeded_paths w projectRoot (Suc k) rest"

subsection \<open>What the action expects of the diff library\<close>

text \<open>
  \<^verbatim>\<open>generateUnifiedDiff\<close> tests the answer of \<^verbatim>\<open>Diff.diffLines\<close> for a single part
  without the flags \<^verbatim>\<open>added\<close> and \<^verbatim>\<open>removed\<close> and calls that "no changes". The
  library is not part of the repository; what it answers for two equal texts is a
  condition on the world: no part at all, or one part without flags.
\<close>

definition diffLines_identity :: "world \<Rightarrow> string \<Rightarrow> bool" where
  "diffLines_identity w c =
     (case diffLines w c c of
        [] \<Rightarrow> True
      | [part] \<Rightarrow> added part = None \<and> removed part = None
      | part # parts \<Rightarrow> False)"

section \<open>A sample world\<close>

text \<open>
  Modelled from the spec: \<^verbatim>\<open>Diff.diffLines\<close> belongs to the package \<^verbatim>\<open>diff\<close>, whose
  sources are not in the repository. The specification asks for a line-level diff that
  reports equal texts as unchanged and otherwise gives segments tagged unchanged, added or
  removed. The sample answers with the coarsest such diff: one part without flags for
  equal texts, else the old text as a removed part followed by the new text as an added
  part, an empty text giving no part. It only instantiates the parameter
  \<^const>\<open>diffLines\<close> of the sample world; the theorems are stated for every world.
\<close>

definition diffLines_sample :: "string \<Rightarrow> string \<Rightarrow> Change list" where
  "diffLines_sample a b =
     (if a = b then [\<lparr>val = b, added = None, removed = None\<rparr>]
      else (if a = [] then [] else [\<lparr>val = a, added = None, removed = Some True\<rparr>])
         @ (if b = [] then [] else [\<lparr>val = b, added = Some True, removed = None\<rparr>]))"

text \<open>
  \<^verbatim>\<open>path.resolve\<close> and \<^verbatim>\<open>path.relative\<close> of the sample world, on the paths the samples
  use: a path is absolute when it starts with a slash, and the path relative to a
  directory drops the directory in front.
\<close>

definition path_resolve_sample :: "string \<Rightarrow> string \<Rightarrow> string" where
  "path_resolve_sample base p =
     (if p = ''.'' then base else if prefix ''/'' p then p else base @ ''/'' @ p)"

definition path_relative_sample :: "string \<Rightarrow> string \<Rightarrow> string" where
  "path_relative_sample base p =
     (if prefix (base @ ''/'') p then drop (length base + 1) p else p)"

text \<open>
  The answer of the scan in the sample world, and changes the backend may propose.
\<close>

definition sample_files :: "ScannedFile list" where
  "sample_files = [\<lparr>ScannedFile.filePath = ''/repo/a.ts'', relativePath = ''a.ts'',
                     content = ''let a = 1''\<rparr>]"

definition change_add :: ProposedFileChange where
  "change_add = \<lparr>filePath = ''/repo/new.ts'', action = ''add'',
                  newContent = Some ''console.log(1)'', reason = None\<rparr>"

definition change_delete :: ProposedFileChange where
  "change_delete = \<lparr>filePath = ''/repo/old.ts'', action = ''delete'',
                     newContent = None, reason = None\<rparr>"

definition change_same :: ProposedFileChange where
  "change_same = \<lparr>filePath = ''/repo/a.ts'', action = ''modify'',
                   newContent = Some ''let a = 1'', reason = None\<rparr>"

definition change_rename :: ProposedFileChange where
  "change_rename = \<lparr>filePath = ''/repo/a.ts'', action = ''rename'',
                     newContent = Some ''b.ts'', reason = None\<rparr>"

definition change_add_empty :: ProposedFileChange where
  "change_add_empty = \<lparr>filePath = ''/repo/empty.ts'', action = ''add'',
                        newContent = None, reason = None\<rparr>"

definition change_modify_empty :: ProposedFileChange where
  "change_modify_empty = \<lparr>filePath = ''/repo/a.ts'', action = ''modify'',
                           newContent = None, reason = None\<rparr>"

definition change_ghost :: ProposedFileChange where
  "change_ghost = \<lparr>filePath = ''/repo/ghost.ts'', action = ''modify'',
                    newContent = None, reason = None\<rparr>"

definition change_ghost_text :: ProposedFileChange where
  "change_ghost_text = \<lparr>filePath = ''/repo/ghost.ts'', action = ''modify'',
                         newContent = Some ''let g = 2'', reason = None\<rparr>"

text \<open>
  The sample world: a Git repository on branch main, a logged-in user who agrees to the
  Git operations, accepts the suggested branch name and answers yes to every change;
  every call succeeds; chalk leaves the text as it is.
\<close>

definition world0 :: world where
  "world0 =
     \<lparr>cwd = ''/repo'',
      path_resolve = path_resolve_sample,
      path_relative = path_relative_sample,
      diffLines = diffLines_sample,
      chalk = (\<lambda>c s. s),
      getAuthToken = Inr True,
      git_checkIsRepo = Inr True,
      git_branchLocal = Inr ''main'',
      git_branch = (\<lambda>n. Inr ()),
      git_checkout = (\<lambda>site n. Inr ()),
      git_add = (\<lambda>ps. Inr ()),
      proceedGit = True,
      branchNameInput = (\<lambda>d. d),
      confirm = (\<lambda>i. Confirm_yes),
      scanProject = (\<lambda>ps r. Inr sample_files),
      callLLM = (\<lambda>p r fs ps. Inr \<lparr>changes = [change_add, change_delete, change_same],
                                    summary = ''three changes'', thoughtProcess = None\<rparr>),
      createFile = (\<lambda>k p d c. Inr ()),
      writeFile = (\<lambda>k p c. Inr ()),
      deleteFile = (\<lambda>k p. Inr ())\<rparr>"

text \<open>
  \<^verbatim>\<open>generate "Add login"\<close> without flags, and with \<^verbatim>\<open>--yes\<close>.
\<close>

definition options_sample :: options where
  "options_sample = \<lparr>path = ''.'', scanDirs = None, scanFiles = None,
                      yes = False, noGit = False, branch = None\<rparr>"

definition options_yes :: options where
  "options_yes = options_sample\<lparr>yes := True\<rparr>"

text \<open>
  Variations of the sample world: the user answers all to the first change and no
  afterwards; the user aborts at the second change; the same with a checkout of the
  original branch that fails; a scan that fails; a backend that refuses to create files.
\<close>

definition world_all :: world where
  "world_all = world0\<lparr>confirm := (\<lambda>i. if i = 0 then Confirm_all else Confirm_no)\<rparr>"

definition world_abort :: world where
  "world_abort = world0\<lparr>confirm := (\<lambda>i. if i = 1 then Confirm_abort else Confirm_yes)\<rparr>"

definition world_revert_fails :: world where
  "world_revert_fails =
     world_abort\<lparr>git_checkout :=
       (\<lambda>site n. if site = Revert then Inl ''pathspec did not match'' else Inr ())\<rparr>"

definition world_scan_fails :: world where
  "world_scan_fails = world0\<lparr>scanProject := (\<lambda>ps r. Inl ''fetch failed'')\<rparr>"

definition world_create_fails :: world where
  "world_create_fails =
     world0\<lparr>createFile := (\<lambda>k p d c. Inl ''Backend Error (500): disk full'')\<rparr>"

text \<open>
  A second sample of \<^verbatim>\<open>Diff.diffLines\<close>, for a release of the package that puts both
  flags on every part: it answers as the first sample does, but where the first leaves a
  flag undefined this one sets it to false, and equal empty texts give no part. The world
  that uses it is the sample world otherwise.
\<close>

definition diffLines_flagged :: "string \<Rightarrow> string \<Rightarrow> Change list" where
  "diffLines_flagged a b =
     (if a = b
      then (if b = [] then [] else [\<lparr>val = b, added = Some False, removed = Some False\<rparr>])
      else (if a = [] then [] else [\<lparr>val = a, added = Some False, removed = Some True\<rparr>])
         @ (if b = [] then [] else [\<lparr>val = b, added = Some True, removed = Some False\<rparr>]))"

definition world_flagged :: world where
  "world_flagged = world0\<lparr>diffLines := diffLines_flagged\<rparr>"

section \<open>Properties of the default branch name\<close>

lemma concat_runs: "concat (runs P xs) = xs"
  by (induction P xs rule: runs.induct) simp_all

lemma runs_nonempty: "[] \<notin> set (runs P xs)"
  by (induction P xs rule: runs.induct) simp_all

lemma runs_homogeneous: "r \<in> set (runs P xs) \<Longrightarrow> y \<in> set r \<Longrightarrow> P y = P (hd r)"
  by (induction P xs rule: runs.induct) (auto dest: set_takeWhileD)

lemma replace_non_alnum_append:
  "list_all is_lower_alnum xs \<Longrightarrow> replace_non_alnum (xs @ ys) = xs @ replace_non_alnum ys"
  by (induction xs) simp_all

lemma replace_non_alnum_takeWhile:
  "replace_non_alnum cs =
     takeWhile is_lower_alnum cs @ replace_non_alnum (dropWhile is_lower_alnum cs)"
proof -
  have "list_all is_lower_alnum (takeWhile is_lower_alnum cs)"
    by (simp add: list_all_iff) (meson set_takeWhileD)
  from replace_non_alnum_append [OF this, of "dropWhile is_lower_alnum cs"]
  show ?thesis by simp
qed

lemma replace_non_alnum_collapse_runs: "replace_non_alnum s = collapse_runs s"
proof (induction s rule: measure_induct_rule [where f = length])
  case (less s)
  show ?case
  proof (cases s)
    case Nil
    then show ?thesis by (simp add: collapse_runs_def)
  next
    case (Cons c cs)
    show ?thesis
    proof (cases "is_lower_alnum c")
      case True
      have len: "length (dropWhile is_lower_alnum cs) < length s"
        using Cons by (simp add: length_dropWhile_le less_Suc_eq_le)
      have all: "list_all is_lower_alnum (takeWhile is_lower_alnum cs)"
        by (simp add: list_all_iff) (meson set_takeWhileD)
      have "replace_non_alnum s = c # replace_non_alnum cs"
        using Cons True by simp
      also have "\<dots> = c # takeWhile is_lower_alnum cs
                      @ replace_non_alnum (dropWhile is_lower_alnum cs)"
        using replace_non_alnum_takeWhile [of cs] by simp
      also have "\<dots> = c # takeWhile is_lower_alnum cs
                      @ collapse_runs (dropWhile is_lower_alnum cs)"
        using less.IH [OF len] by simp
      also have "\<dots> = collapse_runs s"
        using Cons True all by (simp add: collapse_runs_def)
      finally show ?thesis .
    next
      case False
      have len: "length (dropWhile (\<lambda>d. \<not> is_lower_alnum d) cs) < length s"
        using Cons by (simp add: length_dropWhile_le less_Suc_eq_le)
      have "replace_non_alnum s
              = CHR ''-'' # replace_non_alnum (dropWhile (\<lambda>d. \<not> is_lower_alnum d) cs)"
        using Cons False by simp
      also have "\<dots> = CHR ''-'' # collapse_runs (dropWhile (\<lambda>d. \<not> is_lower_alnum d) cs)"
        using less.IH [OF len] by simp
      also have "\<dots> = collapse_runs s"
        using Cons False by (simp add: collapse_runs_def)
      finally show ?thesis .
    qed
  qed
qed

text \<open>
  C9. The default branch name is a function of the prompt alone: the prompt is lower-cased,
  every maximal run of characters outside [a-z0-9] is replaced by one separator, the
  prefix \<^verbatim>\<open>feature/\<close> is put in front, and the first 50 characters of that are the name,
  which therefore is never longer than 50 characters.
\<close>

theorem defaultBranchSuggestion_collapse:
  "defaultBranchSuggestion prompt
     = take 50 (''feature/'' @ collapse_runs (toLowerCase prompt))
   \<and> length (defaultBranchSuggestion prompt) \<le> 50"
  by (simp add: defaultBranchSuggestion_def substring_def replace_non_alnum_collapse_runs)

section \<open>Traces of the phases\<close>

lemma fst_prepend [simp]: "fst (prepend evs r) = evs @ fst r"
  and snd_prepend [simp]: "snd (prepend evs r) = snd r"
  by (simp_all add: prepend_def)

lemma present_events: "list_all is_review_event (fst (present w orig change))"
  by (simp add: present_def Let_def)

lemma review_events:
  "list_all is_review_event (fst (review w ac root orig i cs st))"
proof (induction cs arbitrary: i st)
  case Nil
  show ?case by simp
next
  case (Cons change rest)
  obtain evs skip where p: "present w orig change = (evs, skip)"
    by (cases "present w orig change")
  have evs: "list_all is_review_event evs"
    using present_events [of w orig change] p by simp
  show ?case
    using p evs Cons.IH by (cases ac; cases skip; cases "confirm w i") simp_all
qed

lemma apply_calls_simps [simp]:
  "apply_calls [] = []"
  "apply_calls (e # es) = apply_call e @ apply_calls es"
  "apply_calls (es @ fs) = apply_calls es @ apply_calls fs"
  by (simp_all add: apply_calls_def)

lemma file_ops_simps [simp]:
  "file_ops [] = []"
  "file_ops (e # es) = file_op e @ file_ops es"
  "file_ops (es @ fs) = file_ops es @ file_ops fs"
  by (simp_all add: file_ops_def)

lemma stage_calls_simps [simp]:
  "stage_calls [] = []"
  "stage_calls (e # es) = stage_call e @ stage_calls es"
  "stage_calls (es @ fs) = stage_calls es @ stage_calls fs"
  by (simp_all add: stage_calls_def)

text \<open>
  No event of one phase is mistaken for an event of another.
\<close>

lemma early_quiet:
  "list_all is_early evs \<Longrightarrow>
     apply_calls evs = [] \<and> file_ops evs = [] \<and> stage_calls evs = []
     \<and> Prompt_confirm p a \<notin> set evs"
proof (induction evs)
  case Nil
  show ?case by simp
next
  case (Cons e evs)
  then show ?case by (cases e rule: is_early.cases) auto
qed

lemma review_quiet:
  "list_all is_review_event evs \<Longrightarrow>
     apply_calls evs = [] \<and> file_ops evs = [] \<and> stage_calls evs = []
     \<and> Call_createBranch r n \<notin> set evs"
proof (induction evs)
  case Nil
  show ?case by simp
next
  case (Cons e evs)
  then show ?case by (cases e rule: is_review_event.cases) auto
qed

lemma git_early: "list_all is_git evs \<Longrightarrow> list_all is_early evs"
proof (induction evs)
  case Nil
  show ?case by simp
next
  case (Cons e evs)
  then show ?case by (cases e rule: is_git.cases) auto
qed

lemma git_no_createBranch: "list_all is_git evs \<Longrightarrow> Call_createBranch r n \<notin> set evs"
  by (auto simp: list_all_iff)

lemma createBranch_catch_git:
  "createBranch_catch w n m = (evs, r) \<Longrightarrow> list_all is_git evs"
  by (auto simp: createBranch_catch_def split: if_splits)

lemma createBranch_git: "createBranch w r n = (evs, res) \<Longrightarrow> list_all is_git evs"
  by (auto simp: createBranch_def split: sum.splits prod.splits dest: createBranch_catch_git)

lemma createBranch_early: "createBranch w r n = (evs, res) \<Longrightarrow> list_all is_early evs"
  by (rule git_early) (rule createBranch_git)

lemma preflight_early: "list_all is_early (fst (preflight w prompt root opts))"
  by (auto simp: preflight_def Let_def split: prod.splits sum.splits dest: createBranch_early)

lemma apply_quiet:
  "list_all is_apply_event evs \<Longrightarrow>
     stage_calls evs = [] \<and> Prompt_confirm p a \<notin> set evs \<and> Call_createBranch r n \<notin> set evs"
proof (induction evs)
  case Nil
  show ?case by simp
next
  case (Cons e evs)
  then show ?case by (cases e rule: is_apply_event.cases) auto
qed

lemma applyFileChange_events:
  "applyFileChange w k root change = (evs, r) \<Longrightarrow>
     list_all is_apply_event evs \<and> apply_calls evs = []"
  by (auto simp: applyFileChange_def Let_def split: if_splits)

lemma apply_loop_events: "list_all is_apply_event (apply_loop w root k cs)"
  by (induction cs arbitrary: k)
     (auto split: prod.splits sum.splits dest: applyFileChange_events)

lemma apply_loop_calls: "apply_calls (apply_loop w root k cs) = cs"
  by (induction cs arbitrary: k)
     (auto split: prod.splits sum.splits dest: applyFileChange_events)

lemma revert_branch_git: "revert_branch w opts g ob = (evs, r) \<Longrightarrow> list_all is_git evs"
  by (auto simp: revert_branch_def split: if_splits)

lemma revert_branch_options:
  "noGit a = noGit b \<Longrightarrow> branch a = branch b
     \<Longrightarrow> revert_branch w a g ob = revert_branch w b g ob"
  by (simp add: revert_branch_def)

lemma stageFiles_git: "stageFiles w r ps = (evs, res) \<Longrightarrow> list_all is_git evs"
  by (auto simp: stageFiles_def Let_def)

lemma git_quiet:
  "list_all is_git evs \<Longrightarrow>
     apply_calls evs = [] \<and> file_ops evs = [] \<and> stage_calls evs = []
     \<and> Prompt_confirm p a \<notin> set evs \<and> Call_createBranch r n \<notin> set evs"
  using early_quiet [OF git_early, of evs p a] git_no_createBranch [of evs r n] by simp

section \<open>The review loop\<close>

text \<open>
  The loop is left by abort exactly when the last prompt it showed returned abort.
\<close>

lemma review_abort_flag:
  "Prompt_confirm p Confirm_abort \<in> set (fst (review w ac root orig i cs st))
     \<Longrightarrow> snd (snd (review w ac root orig i cs st))"
proof (induction cs arbitrary: i st)
  case Nil
  then show ?case by simp
next
  case (Cons change rest)
  obtain evs skip where pr: "present w orig change = (evs, skip)"
    by (cases "present w orig change")
  have evs: "Prompt_confirm p Confirm_abort \<notin> set evs"
    using pr by (auto simp: present_def Let_def split: if_splits)
  show ?case
    using pr evs Cons.prems Cons.IH
    by (cases ac; cases skip; cases "confirm w i") auto
qed

lemma review_abort_last:
  "snd (snd (review w ac root orig i cs st))
     \<Longrightarrow> \<exists>pre p. fst (review w ac root orig i cs st) = pre @ [Prompt_confirm p Confirm_abort]"
proof (induction cs arbitrary: i st)
  case Nil
  then show ?case by simp
next
  case (Cons change rest)
  obtain evs skip where pr: "present w orig change = (evs, skip)"
    by (cases "present w orig change")
  have step: "\<exists>pre p. evs0 @ fst (review w ac root orig (Suc i) rest st')
                 = pre @ [Prompt_confirm p Confirm_abort]"
    if "snd (snd (review w ac root orig (Suc i) rest st'))" for evs0 st'
  proof -
    from Cons.IH [OF that] obtain pre p
      where "fst (review w ac root orig (Suc i) rest st') = pre @ [Prompt_confirm p Confirm_abort]"
      by blast
    then have "evs0 @ fst (review w ac root orig (Suc i) rest st')
                 = (evs0 @ pre) @ [Prompt_confirm p Confirm_abort]"
      by simp
    then show ?thesis by blast
  qed
  show ?case
  proof (cases skip)
    case True
    with pr Cons.prems step show ?thesis by simp
  next
    case False
    show ?thesis
    proof (cases ac)
      case True
      with pr False Cons.prems step show ?thesis by simp
    next
      case nac: False
      show ?thesis
      proof (cases "confirm w i")
        case Confirm_abort
        with pr False nac show ?thesis by simp
      next
        case Confirm_yes
        with pr False nac Cons.prems
          step [of "push change st"
                   "evs @ [Prompt_confirm (path_relative w root (ProposedFileChange.filePath change)) Confirm_yes]"]
        show ?thesis by simp
      next
        case Confirm_no
        with pr False nac Cons.prems
          step [of st
                   "evs @ [Prompt_confirm (path_relative w root (ProposedFileChange.filePath change)) Confirm_no]"]
        show ?thesis by simp
      next
        case Confirm_all
        with pr False nac Cons.prems
          step [of "(push change st)\<lparr>optionsObj := (optionsObj st)\<lparr>yes := True\<rparr>\<rparr>"
                   "evs @ [Prompt_confirm (path_relative w root (ProposedFileChange.filePath change)) Confirm_all]"]
        show ?thesis by simp
      qed
    qed
  qed
qed

lemma review_autoConfirm_no_abort:
  "\<not> snd (snd (review w True root orig i cs st))"
  by (induction cs arbitrary: i st) (auto split: prod.splits bool.splits)

text \<open>
  The two lists grow together, and the loop changes neither \<^verbatim>\<open>options.noGit\<close> nor
  \<^verbatim>\<open>options.branch\<close>.
\<close>

lemma review_paths:
  "filesModifiedOrAdded st = map ProposedFileChange.filePath (changesToApply st) \<Longrightarrow>
   filesModifiedOrAdded (fst (snd (review w ac root orig i cs st)))
     = map ProposedFileChange.filePath (changesToApply (fst (snd (review w ac root orig i cs st))))"
proof (induction cs arbitrary: i st)
  case Nil
  then show ?case by simp
next
  case (Cons change rest)
  obtain evs skip where pr: "present w orig change = (evs, skip)"
    by (cases "present w orig change")
  have push: "filesModifiedOrAdded (push change st)
                = map ProposedFileChange.filePath (changesToApply (push change st))"
    using Cons.prems by (simp add: push_def)
  have push': "filesModifiedOrAdded ((push change st)\<lparr>optionsObj := (optionsObj st)\<lparr>yes := True\<rparr>\<rparr>)
                = map ProposedFileChange.filePath
                    (changesToApply ((push change st)\<lparr>optionsObj := (optionsObj st)\<lparr>yes := True\<rparr>\<rparr>))"
    using Cons.prems by (simp add: push_def)
  show ?case
    using pr Cons.prems Cons.IH [OF push] Cons.IH [OF push'] Cons.IH [OF Cons.prems]
    by (cases ac; cases skip; cases "confirm w i") simp_all
qed

lemma review_options:
  "noGit (optionsObj (fst (snd (review w ac root orig i cs st)))) = noGit (optionsObj st)
   \<and> branch (optionsObj (fst (snd (review w ac root orig i cs st)))) = branch (optionsObj st)"
proof (induction cs arbitrary: i st)
  case Nil
  then show ?case by simp
next
  case (Cons change rest)
  obtain evs skip where pr: "present w orig change = (evs, skip)"
    by (cases "present w orig change")
  show ?case
    using pr Cons.IH
    by (cases ac; cases skip; cases "confirm w i") (simp_all add: push_def)
qed

lemma review_state0_options:
  "review w ac root orig 0 cs (state0 opts1) = (evs, st, ab) \<Longrightarrow>
     revert_branch w (optionsObj st) g ob = revert_branch w opts1 g ob
     \<and> noGit (optionsObj st) = noGit opts1"
  using review_options [of w ac root orig 0 cs "state0 opts1"]
  by (simp add: state0_def revert_branch_def)

lemma review_state0_paths:
  "review w ac root orig 0 cs (state0 opts1) = (evs, st, ab) \<Longrightarrow>
     filesModifiedOrAdded st = map ProposedFileChange.filePath (changesToApply st)"
  using review_paths [of "state0 opts1" w ac root orig 0 cs]
  by (simp add: state0_def)

lemma review_skip:
  "present w orig change = ([], True) \<Longrightarrow>
     review w ac root orig i (change # rest) st = review w ac root orig (Suc i) rest st"
  by (simp add: prepend_def)

lemma review_enqueued:
  "c \<in> set (changesToApply (fst (snd (review w ac root orig i cs st))))
     \<Longrightarrow> c \<in> set (changesToApply st) \<or> (c \<in> set cs \<and> \<not> snd (present w orig c))"
proof (induction cs arbitrary: i st)
  case Nil
  then show ?case by simp
next
  case (Cons change rest)
  obtain evs skip where pr: "present w orig change = (evs, skip)"
    by (cases "present w orig change")
  show ?case
    using pr Cons.prems Cons.IH [of "Suc i" st] Cons.IH [of "Suc i" "push change st"]
      Cons.IH [of "Suc i" "(push change st)\<lparr>optionsObj := (optionsObj st)\<lparr>yes := True\<rparr>\<rparr>"]
    by (cases ac; cases skip; cases "confirm w i") (auto simp: push_def)
qed

section \<open>The action as a whole\<close>

lemma review_and_apply_aborted:
  assumes "review w ac root orig 0 cs (state0 opts1) = (evs, st, True)"
  shows "review_and_apply w ac root opts1 g ob orig cs =
           (case revert_branch w opts1 g ob of
              (evs', Inl e) \<Rightarrow> fail (evs @ evs') e
            | (evs', Inr u) \<Rightarrow> (evs @ evs', Aborted))"
  using assms review_state0_options [OF assms, of g ob]
  by (simp add: review_and_apply_def state0_def [symmetric])

lemma review_and_apply_calls:
  assumes "review w ac root orig 0 cs (state0 opts1) = (evs, st, ab)"
  shows "apply_calls (fst (review_and_apply w ac root opts1 g ob orig cs))
           = (if ab then [] else changesToApply st)"
    and "stage_calls (fst (review_and_apply w ac root opts1 g ob orig cs))
           = (if \<not> ab \<and> changesToApply st \<noteq> [] \<and> g \<and> \<not> noGit opts1
              then [filesModifiedOrAdded st] else [])"
    and "ab \<Longrightarrow> file_ops (fst (review_and_apply w ac root opts1 g ob orig cs)) = []"
    and "Prompt_confirm p a \<in> set (fst (review_and_apply w ac root opts1 g ob orig cs))
           \<longleftrightarrow> Prompt_confirm p a \<in> set evs"
    and "Call_createBranch r n \<notin> set (fst (review_and_apply w ac root opts1 g ob orig cs))"
proof -
  have rq: "apply_calls evs = [] \<and> file_ops evs = [] \<and> stage_calls evs = []
             \<and> Call_createBranch r n \<notin> set evs"
    using review_events [of w ac root orig 0 cs "state0 opts1"] assms review_quiet by simp
  have opt: "revert_branch w (optionsObj st) g ob = revert_branch w opts1 g ob"
    "noGit (optionsObj st) = noGit opts1"
    using review_state0_options [OF assms] by simp_all
  obtain evs' res where rv: "revert_branch w opts1 g ob = (evs', res)"
    by (cases "revert_branch w opts1 g ob")
  note gq = git_quiet [OF revert_branch_git [OF rv]]
  obtain evs3 res3 where sf: "stageFiles w root (filesModifiedOrAdded st) = (evs3, res3)"
    by (cases "stageFiles w root (filesModifiedOrAdded st)")
  note sq = git_quiet [OF stageFiles_git [OF sf]]
  note aq = apply_quiet [OF apply_loop_events, of w root 0 "changesToApply st"]
  note defs = review_and_apply_def state0_def [symmetric] fail_def apply_loop_calls Let_def
  show "apply_calls (fst (review_and_apply w ac root opts1 g ob orig cs))
           = (if ab then [] else changesToApply st)"
    using assms rq opt rv gq sf sq by (cases ab; cases res; cases res3) (simp_all add: defs)
  show "stage_calls (fst (review_and_apply w ac root opts1 g ob orig cs))
           = (if \<not> ab \<and> changesToApply st \<noteq> [] \<and> g \<and> \<not> noGit opts1
              then [filesModifiedOrAdded st] else [])"
    using assms rq opt rv gq sf sq aq by (cases ab; cases res; cases res3) (simp_all add: defs)
  show "file_ops (fst (review_and_apply w ac root opts1 g ob orig cs)) = []" if ab
    using that assms rq opt rv gq by (cases res) (simp_all add: defs)
  show "Prompt_confirm p a \<in> set (fst (review_and_apply w ac root opts1 g ob orig cs))
           \<longleftrightarrow> Prompt_confirm p a \<in> set evs"
    using assms opt rv gq sf sq aq by (cases ab; cases res; cases res3) (simp_all add: defs)
  show "Call_createBranch r n \<notin> set (fst (review_and_apply w ac root opts1 g ob orig cs))"
    using assms rq opt rv gq sf sq aq by (cases ab; cases res; cases res3) (simp_all add: defs)
qed

text \<open>
  A run either ends before the review loop, and then its trace holds nothing but early
  events, or it is the trace of the pre-check, the scan and the generation call followed
  by the review loop and what comes after it.
\<close>

lemma generate_cases:
  "(list_all is_early (fst (generate w prompt options0))
      \<and> snd (generate w prompt options0) \<noteq> Aborted \<and> snd (generate w prompt options0) \<noteq> Done)
   \<or> (\<exists>evs1 opts1 g ob files (llm :: LLMOutput).
         preflight w prompt (root_of w options0) options0 = (evs1, Inr (opts1, g, ob))
         \<and> scanProject w (allScanPaths options0) (root_of w options0) = Inr files
         \<and> list_all is_early
              (evs1 @ [Backend (ScanProject (allScanPaths options0) (root_of w options0)),
                       Backend (CallLLM prompt (root_of w options0) files (allScanPaths options0))])
         \<and> generate w prompt options0 =
             prepend
               (evs1 @ [Backend (ScanProject (allScanPaths options0) (root_of w options0)),
                        Backend (CallLLM prompt (root_of w options0) files (allScanPaths options0))])
               (review_and_apply w (yes options0) (root_of w options0) opts1 g ob
                  (originalFileContents files) (changes llm)))"
proof -
  let ?root = "root_of w options0"
  let ?paths = "allScanPaths options0"
  note defs = generate_def root_of_def [symmetric] Let_def fail_def
  obtain evs1 res1 where pf: "preflight w prompt ?root options0 = (evs1, res1)"
    by (cases "preflight w prompt ?root options0")
  have e1: "list_all is_early evs1"
    using preflight_early [of w prompt ?root options0] pf by simp
  show ?thesis
  proof (cases "getAuthToken w")
    case (Inl e)
    then show ?thesis by (simp add: defs)
  next
    case (Inr token)
    show ?thesis
    proof (cases token)
      case False
      with Inr show ?thesis by (simp add: defs)
    next
      case True
      show ?thesis
      proof (cases res1)
        case (Inl e)
        with Inr True pf e1 show ?thesis by (simp add: defs)
      next
        case res: (Inr s)
        obtain opts1 g ob where s: "s = (opts1, g, ob)"
          by (cases s)
        show ?thesis
        proof (cases "scanProject w ?paths ?root")
          case (Inl e)
          with Inr True pf e1 res s show ?thesis by (simp add: defs)
        next
          case scan: (Inr files)
          show ?thesis
          proof (cases "callLLM w prompt ?root files ?paths")
            case (Inl e)
            with Inr True pf e1 res s scan show ?thesis by (simp add: defs)
          next
            case llm: (Inr llmOutput)
            show ?thesis
            proof (cases "changes llmOutput = []")
              case True
              with \<open>getAuthToken w = Inr token\<close> \<open>token\<close> pf e1 res s scan llm
              show ?thesis by (simp add: defs)
            next
              case False
              have e2: "list_all is_early (evs1 @ [Backend (ScanProject ?paths ?root),
                                       Backend (CallLLM prompt ?root files ?paths)])"
                using e1 by simp
              have pf': "preflight w prompt ?root options0 = (evs1, Inr (opts1, g, ob))"
                using pf res s by simp
              have gen: "generate w prompt options0 =
                      prepend (evs1 @ [Backend (ScanProject ?paths ?root),
                                       Backend (CallLLM prompt ?root files ?paths)])
                        (review_and_apply w (yes options0) ?root opts1 g ob
                           (originalFileContents files) (changes llmOutput))"
                using \<open>getAuthToken w = Inr token\<close> \<open>token\<close> pf res s scan llm False
                by (simp add: defs)
              show ?thesis
                using pf' scan e2 gen by blast
            qed
          qed
        qed
      qed
    qed
  qed
qed

lemma noop_never_applied:
  assumes scan: "scanProject w (allScanPaths options0) (root_of w options0) = Inr files"
    and noop: "snd (present w (originalFileContents files) change)"
  shows "change \<notin> set (apply_calls (fst (generate w prompt options0)))"
proof -
  from generate_cases [of w prompt options0] show ?thesis
  proof (elim disjE conjE exE)
    assume "list_all is_early (fst (generate w prompt options0))"
    from early_quiet [OF this, of "[]" Confirm_abort] show ?thesis by simp
  next
    fix evs1 opts1 g ob files' and llm :: LLMOutput
    let ?pre = "evs1 @ [Backend (ScanProject (allScanPaths options0) (root_of w options0)),
                        Backend (CallLLM prompt (root_of w options0) files' (allScanPaths options0))]"
    let ?raa = "review_and_apply w (yes options0) (root_of w options0) opts1 g ob
                  (originalFileContents files') (changes llm)"
    assume pre: "list_all is_early ?pre"
      and gen: "generate w prompt options0 = prepend ?pre ?raa"
      and scan': "scanProject w (allScanPaths options0) (root_of w options0) = Inr files'"
    have files: "files' = files"
      using scan scan' by simp
    obtain evs st ab
      where rv: "review w (yes options0) (root_of w options0) (originalFileContents files) 0
                   (changes llm) (state0 opts1) = (evs, st, ab)"
      by (cases "review w (yes options0) (root_of w options0) (originalFileContents files) 0
                   (changes llm) (state0 opts1)")
    note pq = early_quiet [OF pre, of "[]" Confirm_abort]
    have "change \<notin> set (changesToApply st)"
      using review_enqueued [of change w "yes options0" "root_of w options0"
              "originalFileContents files" 0 "changes llm" "state0 opts1"] rv noop
      by (auto simp: state0_def)
    then show ?thesis
      using gen pq files review_and_apply_calls(1) [OF rv, of g ob] by simp
  qed
qed

section \<open>Runs in the sample world\<close>

lemma sample_scan:
  "scanProject world0 (allScanPaths options_sample) (root_of world0 options_sample)
     = Inr sample_files"
  by code_simp

lemma run_abort_sample:
  "generate world_abort ''Add login'' options_sample
     = ([Git CheckIsRepo, Git BranchLocal, Prompt_proceedGit,
         Prompt_branchNameInput ''feature/add-login'',
         Call_createBranch ''/repo'' ''feature/add-login'',
         Git (Branch ''feature/add-login''), Git (Checkout ''feature/add-login''),
         Backend (ScanProject [''.''] ''/repo''),
         Backend (CallLLM ''Add login'' ''/repo'' sample_files [''.'']),
         Prompt_confirm ''new.ts'' Confirm_yes, Prompt_confirm ''old.ts'' Confirm_abort,
         Git (Checkout ''main'')],
        Aborted)"
  by code_simp

lemma run_yes_sample:
  "generate world0 ''Add login'' options_sample
     = ([Git CheckIsRepo, Git BranchLocal, Prompt_proceedGit,
         Prompt_branchNameInput ''feature/add-login'',
         Call_createBranch ''/repo'' ''feature/add-login'',
         Git (Branch ''feature/add-login''), Git (Checkout ''feature/add-login''),
         Backend (ScanProject [''.''] ''/repo''),
         Backend (CallLLM ''Add login'' ''/repo'' sample_files [''.'']),
         Prompt_confirm ''new.ts'' Confirm_yes, Prompt_confirm ''old.ts'' Confirm_yes,
         Call_applyFileChange ''/repo'' change_add,
         Backend (CreateFile ''/repo/new.ts'' False ''console.log(1)''),
         Call_applyFileChange ''/repo'' change_delete,
         Backend (DeleteFile ''/repo/old.ts''),
         Call_stageFiles ''/repo'' [''/repo/new.ts'', ''/repo/old.ts''],
         Git (Add [''new.ts'', ''old.ts''])],
        Done)"
  by code_simp

lemma run_create_fails_sample:
  "generate world_create_fails ''Add login'' options_yes
     = ([Git CheckIsRepo, Git BranchLocal,
         Call_createBranch ''/repo'' ''feature/add-login'',
         Git (Branch ''feature/add-login''), Git (Checkout ''feature/add-login''),
         Backend (ScanProject [''.''] ''/repo''),
         Backend (CallLLM ''Add login'' ''/repo'' sample_files [''.'']),
         Call_applyFileChange ''/repo'' change_add,
         Backend (CreateFile ''/repo/new.ts'' False ''console.log(1)''),
         Console_error
           ''Failed to apply change for /repo/new.ts: Backend Error (500): disk full'',
         Call_applyFileChange ''/repo'' change_delete,
         Backend (DeleteFile ''/repo/old.ts''),
         Call_stageFiles ''/repo'' [''/repo/new.ts'', ''/repo/old.ts''],
         Git (Add [''new.ts'', ''old.ts''])],
        Done)"
  by code_simp

section \<open>The choice Apply All\<close>

text \<open>
  C1. The claim: once the user answers Apply All, every later change of the batch is
  applied without a further prompt. The loop tests the constant \<^verbatim>\<open>autoConfirm\<close>, which
  was read from \<^verbatim>\<open>options.yes\<close> before the loop; the choice sets \<^verbatim>\<open>options.yes\<close>, which
  the loop never reads again. In the run below the user answers all to the first change:
  the prompt is shown again for the second change, and the answer no given there drops
  that change.
\<close>

theorem apply_all_still_prompts:
  "generate world_all ''Add login'' options_sample
     = ([Git CheckIsRepo, Git BranchLocal, Prompt_proceedGit,
         Prompt_branchNameInput ''feature/add-login'',
         Call_createBranch ''/repo'' ''feature/add-login'',
         Git (Branch ''feature/add-login''), Git (Checkout ''feature/add-login''),
         Backend (ScanProject [''.''] ''/repo''),
         Backend (CallLLM ''Add login'' ''/repo'' sample_files [''.'']),
         Prompt_confirm ''new.ts'' Confirm_all, Prompt_confirm ''old.ts'' Confirm_no,
         Call_applyFileChange ''/repo'' change_add,
         Backend (CreateFile ''/repo/new.ts'' False ''console.log(1)''),
         Call_stageFiles ''/repo'' [''/repo/new.ts''],
         Git (Add [''new.ts''])],
        Done)"
  by code_simp

section \<open>Abort\<close>

text \<open>
  C2. In every run in which the decision prompt returned abort, for whichever change and
  after whichever earlier answers, \<^verbatim>\<open>applyFileChange\<close> is called for no change of the
  batch and no file operation is sent to the backend.
\<close>

theorem abort_applies_nothing:
  assumes "Prompt_confirm p Confirm_abort \<in> set (fst (generate w prompt options0))"
  shows "apply_calls (fst (generate w prompt options0)) = []
         \<and> file_ops (fst (generate w prompt options0)) = []"
proof -
  from generate_cases [of w prompt options0] show ?thesis
  proof (elim disjE conjE exE)
    assume "list_all is_early (fst (generate w prompt options0))"
    from early_quiet [OF this, of p Confirm_abort] show ?thesis by simp
  next
    fix evs1 opts1 g ob files and llm :: LLMOutput
    let ?pre = "evs1 @ [Backend (ScanProject (allScanPaths options0) (root_of w options0)),
                        Backend (CallLLM prompt (root_of w options0) files (allScanPaths options0))]"
    let ?raa = "review_and_apply w (yes options0) (root_of w options0) opts1 g ob
                  (originalFileContents files) (changes llm)"
    assume pre: "list_all is_early ?pre"
      and gen: "generate w prompt options0 = prepend ?pre ?raa"
    obtain evs st ab
      where rv: "review w (yes options0) (root_of w options0) (originalFileContents files) 0
                   (changes llm) (state0 opts1) = (evs, st, ab)"
      by (cases "review w (yes options0) (root_of w options0) (originalFileContents files) 0
                   (changes llm) (state0 opts1)")
    note pq = early_quiet [OF pre, of p Confirm_abort]
    have "Prompt_confirm p Confirm_abort \<in> set (fst ?raa)"
      using assms gen pq by simp
    then have "Prompt_confirm p Confirm_abort \<in> set evs"
      using review_and_apply_calls(4) [OF rv] by simp
    then have ab
      using review_abort_flag [of p w "yes options0" "root_of w options0"
              "originalFileContents files" 0 "changes llm" "state0 opts1"] rv
      by simp
    then show ?thesis
      using gen pq review_and_apply_calls(1) [OF rv, of g ob]
        review_and_apply_calls(3) [OF rv, of g ob]
      by simp
  qed
qed

text \<open>
  The answers yes, abort in the sample world: the change confirmed first is not applied.
\<close>

theorem abort_applies_nothing_witness:
  "Prompt_confirm ''old.ts'' Confirm_abort
     \<in> set (fst (generate world_abort ''Add login'' options_sample))
   \<and> apply_calls (fst (generate world_abort ''Add login'' options_sample)) = []
   \<and> file_ops (fst (generate world_abort ''Add login'' options_sample)) = []"
proof -
  have h: "Prompt_confirm ''old.ts'' Confirm_abort
             \<in> set (fst (generate world_abort ''Add login'' options_sample))"
    by (simp add: run_abort_sample)
  from abort_applies_nothing [OF h] h show ?thesis by simp
qed

section \<open>A scan that fails\<close>

text \<open>
  The claim C3 says that no branch has been created when the scan fails. Under
  \<^verbatim>\<open>--yes\<close> in a repository, \<^verbatim>\<open>createBranch\<close> has been called and the branch checked
  out before the scan is sent.
\<close>

theorem scan_failure_branch_counterexample:
  "generate world_scan_fails ''Add login'' options_yes
     = ([Git CheckIsRepo, Git BranchLocal,
         Call_createBranch ''/repo'' ''feature/add-login'',
         Git (Branch ''feature/add-login''), Git (Checkout ''feature/add-login''),
         Backend (ScanProject [''.''] ''/repo''),
         Console_error ''Error during generation: fetch failed''],
        Failed ''fetch failed'')"
  by code_simp

text \<open>
  C3, amended. In every run in which the scan fails, the action reports the error and ends
  with exit code 1 right after the scan call: the trace of the run is the trace of the Git
  pre-check followed by the scan request and the error report. The pre-check precedes the
  scan, so a call of \<^verbatim>\<open>createBranch\<close> that the pre-check makes has already been issued
  when the scan fails.
\<close>

theorem scan_failure_after_precheck:
  assumes "getAuthToken w = Inr True"
    and "preflight w prompt (root_of w options0) options0 = (evs1, Inr s)"
    and "scanProject w (allScanPaths options0) (root_of w options0) = Inl e"
  shows "generate w prompt options0
           = (evs1 @ [Backend (ScanProject (allScanPaths options0) (root_of w options0)),
                      Console_error (''Error during generation: '' @ e)],
              Failed e)
         \<and> (Call_createBranch r n \<in> set (fst (generate w prompt options0))
              \<longleftrightarrow> Call_createBranch r n \<in> set evs1)"
proof -
  have gen: "generate w prompt options0
           = (evs1 @ [Backend (ScanProject (allScanPaths options0) (root_of w options0)),
                      Console_error (''Error during generation: '' @ e)],
              Failed e)"
    using assms by (cases s) (simp add: generate_def root_of_def [symmetric] Let_def fail_def)
  then show ?thesis by simp
qed

text \<open>
  The failing scan of the sample world under \<^verbatim>\<open>--yes\<close>: the branch of the pre-check
  is in the trace of the failed run.
\<close>

theorem scan_failure_after_precheck_witness:
  "getAuthToken world_scan_fails = Inr True
   \<and> scanProject world_scan_fails (allScanPaths options_yes)
       (root_of world_scan_fails options_yes) = Inl ''fetch failed''
   \<and> snd (generate world_scan_fails ''Add login'' options_yes) = Failed ''fetch failed''
   \<and> Call_createBranch ''/repo'' ''feature/add-login''
       \<in> set (fst (generate world_scan_fails ''Add login'' options_yes))"
proof -
  have a: "getAuthToken world_scan_fails = Inr True"
    by code_simp
  have p: "preflight world_scan_fails ''Add login'' (root_of world_scan_fails options_yes)
             options_yes
           = ([Git CheckIsRepo, Git BranchLocal,
               Call_createBranch ''/repo'' ''feature/add-login'',
               Git (Branch ''feature/add-login''), Git (Checkout ''feature/add-login'')],
              Inr (options_yes\<lparr>branch := Some ''feature/add-login''\<rparr>, True, Some ''main''))"
    by code_simp
  have s: "scanProject world_scan_fails (allScanPaths options_yes)
             (root_of world_scan_fails options_yes) = Inl ''fetch failed''"
    by code_simp
  note inst = scan_failure_after_precheck [OF a p s, of "''/repo''" "''feature/add-login''"]
  have f: "snd (generate world_scan_fails ''Add login'' options_yes) = Failed ''fetch failed''"
    using inst [THEN conjunct1] by simp
  have b: "Call_createBranch ''/repo'' ''feature/add-login''
             \<in> set (fst (generate world_scan_fails ''Add login'' options_yes))"
    using inst [THEN conjunct2] by simp
  from a s f b show ?thesis by blast
qed

section \<open>Modifications that change nothing\<close>

lemma generateUnifiedDiff_identity:
  "diffLines_identity w c \<Longrightarrow> generateUnifiedDiff w c c = []"
  by (auto simp: diffLines_identity_def generateUnifiedDiff_def Let_def split: list.splits)

text \<open>
  Where the diff library reports equal texts as unchanged by a part without flags (or by
  no part), a modification that repeats the content captured for its path gets the empty
  diff, the review loop passes it over whatever the auto-confirm flag, and
  \<^verbatim>\<open>applyFileChange\<close> is never called with it.
\<close>

lemma identical_modify_skipped_unflagged:
  assumes "action change = ''modify''"
    and "scanProject w (allScanPaths options0) (root_of w options0) = Inr files"
    and "originalFileContents files (ProposedFileChange.filePath change) = Some c"
    and "newContent change = Some c"
    and "diffLines_identity w c"
  shows "generateUnifiedDiff w c c = []
         \<and> review w ac root (originalFileContents files) i (change # rest) st
             = review w ac root (originalFileContents files) (Suc i) rest st
         \<and> change \<notin> set (apply_calls (fst (generate w prompt options0)))"
proof -
  have d: "generateUnifiedDiff w c c = []"
    using assms(5) by (rule generateUnifiedDiff_identity)
  have p: "present w (originalFileContents files) change = ([], True)"
    using assms(1,3,4) d by (simp add: present_def or_empty_def truthy_def)
  show ?thesis
    using d review_skip [OF p] noop_never_applied [OF assms(2), of change prompt] p by simp
qed

text \<open>
  C4. The claim: a modification whose new content equals the content captured for its path
  gets the empty diff and reaches neither the decision prompt nor \<^verbatim>\<open>applyFileChange\<close>,
  whatever the auto-confirm flag. \<^verbatim>\<open>generateUnifiedDiff\<close> takes a diff for empty only
  when its single part has both flags undefined, while the lines below that test read the
  same flags by their truth value. With a library that sets both flags to false on an
  unchanged part, the diff of two equal texts is the text itself, indented: in the runs
  below the unchanged file a.ts is shown, asked about and written again, and under
  \<^verbatim>\<open>--yes\<close> it is applied as well.
\<close>

theorem identical_modify_prompted:
  "diffLines world_flagged ''let a = 1'' ''let a = 1''
     = [\<lparr>val = ''let a = 1'', added = Some False, removed = Some False\<rparr>]
   \<and> generateUnifiedDiff world_flagged ''let a = 1'' ''let a = 1'' = ''  let a = 1''
   \<and> generate world_flagged ''Add login'' options_sample
     = ([Git CheckIsRepo, Git BranchLocal, Prompt_proceedGit,
         Prompt_branchNameInput ''feature/add-login'',
         Call_createBranch ''/repo'' ''feature/add-login'',
         Git (Branch ''feature/add-login''), Git (Checkout ''feature/add-login''),
         Backend (ScanProject [''.''] ''/repo''),
         Backend (CallLLM ''Add login'' ''/repo'' sample_files [''.'']),
         Prompt_confirm ''new.ts'' Confirm_yes, Prompt_confirm ''old.ts'' Confirm_yes,
         Show_diff ''  let a = 1'', Prompt_confirm ''a.ts'' Confirm_yes,
         Call_applyFileChange ''/repo'' change_add,
         Backend (CreateFile ''/repo/new.ts'' False ''console.log(1)''),
         Call_applyFileChange ''/repo'' change_delete,
         Backend (DeleteFile ''/repo/old.ts''),
         Call_applyFileChange ''/repo'' change_same,
         Backend (WriteFile ''/repo/a.ts'' ''let a = 1''),
         Call_stageFiles ''/repo'' [''/repo/new.ts'', ''/repo/old.ts'', ''/repo/a.ts''],
         Git (Add [''new.ts'', ''old.ts'', ''a.ts''])],
        Done)
   \<and> apply_calls (fst (generate world_flagged ''Add login'' options_yes))
     = [change_add, change_delete, change_same]"
  by code_simp

section \<open>What is staged\<close>

text \<open>
  The claim C5 says that only paths whose file operation succeeded are staged. When the
  backend refuses to create the new file, its path is staged all the same.
\<close>

theorem staged_failed_path_counterexample:
  "stage_calls (fst (generate world_create_fails ''Add login'' options_yes))
     = [[''/repo/new.ts'', ''/repo/old.ts'']]
   \<and> succeeded_paths world_create_fails ''/repo'' 0
        (apply_calls (fst (generate world_create_fails ''Add login'' options_yes)))
     = [''/repo/old.ts'']"
  by code_simp

text \<open>
  C5, amended. In every run that calls \<^verbatim>\<open>stageFiles\<close>, the list passed to it is the list
  of the paths of the confirmed changes, in the order in which \<^verbatim>\<open>applyFileChange\<close> was
  called for them, whether or not these calls succeeded.
\<close>

theorem staged_paths_are_confirmed_paths:
  assumes "ps \<in> set (stage_calls (fst (generate w prompt options0)))"
  shows "ps = map ProposedFileChange.filePath (apply_calls (fst (generate w prompt options0)))"
proof -
  from generate_cases [of w prompt options0] show ?thesis
  proof (elim disjE conjE exE)
    assume "list_all is_early (fst (generate w prompt options0))"
    from early_quiet [OF this, of "[]" Confirm_abort] assms show ?thesis by simp
  next
    fix evs1 opts1 g ob files and llm :: LLMOutput
    let ?pre = "evs1 @ [Backend (ScanProject (allScanPaths options0) (root_of w options0)),
                        Backend (CallLLM prompt (root_of w options0) files (allScanPaths options0))]"
    let ?raa = "review_and_apply w (yes options0) (root_of w options0) opts1 g ob
                  (originalFileContents files) (changes llm)"
    assume pre: "list_all is_early ?pre"
      and gen: "generate w prompt options0 = prepend ?pre ?raa"
    obtain evs st ab
      where rv: "review w (yes options0) (root_of w options0) (originalFileContents files) 0
                   (changes llm) (state0 opts1) = (evs, st, ab)"
      by (cases "review w (yes options0) (root_of w options0) (originalFileContents files) 0
                   (changes llm) (state0 opts1)")
    note pq = early_quiet [OF pre, of "[]" Confirm_abort]
    have "ps \<in> set (stage_calls (fst ?raa))"
      using assms gen pq by simp
    then have "ps = filesModifiedOrAdded st \<and> \<not> ab"
      using review_and_apply_calls(2) [OF rv, of g ob] by (simp split: if_splits)
    then show ?thesis
      using gen pq review_and_apply_calls(1) [OF rv, of g ob] review_state0_paths [OF rv]
      by simp
  qed
qed

text \<open>
  The run of the sample world in which both changes are confirmed.
\<close>

theorem staged_paths_are_confirmed_paths_witness:
  "[''/repo/new.ts'', ''/repo/old.ts'']
     \<in> set (stage_calls (fst (generate world0 ''Add login'' options_sample)))
   \<and> [''/repo/new.ts'', ''/repo/old.ts'']
     = map ProposedFileChange.filePath
         (apply_calls (fst (generate world0 ''Add login'' options_sample)))"
proof -
  have h: "[''/repo/new.ts'', ''/repo/old.ts'']
             \<in> set (stage_calls (fst (generate world0 ''Add login'' options_sample)))"
    by (simp add: run_yes_sample)
  from staged_paths_are_confirmed_paths [OF h] h show ?thesis by simp
qed

section \<open>Abort after a branch was created\<close>

lemma preflight_branch_created:
  assumes "preflight w prompt root opts = (evs1, Inr (opts1, g, ob))"
    and "Call_createBranch r n \<in> set evs1"
  shows "g \<and> \<not> noGit opts1 \<and> or_empty (branch opts1) = n \<and> ob = getCurrentBranch w"
  using assms
  by (auto simp: preflight_def Let_def
           split: if_splits prod.splits sum.splits
           dest: createBranch_git [THEN git_no_createBranch])

text \<open>
  The claim C6 says that a failing checkout of the original branch after abort leaves the
  run aborted. The checkout stands inside the \<^verbatim>\<open>try\<close> block of the action: its error is
  caught by the \<^verbatim>\<open>catch\<close> block, which reports it and ends the process with exit code 1.
\<close>

theorem revert_failure_counterexample:
  "generate world_revert_fails ''Add login'' options_sample
     = ([Git CheckIsRepo, Git BranchLocal, Prompt_proceedGit,
         Prompt_branchNameInput ''feature/add-login'',
         Call_createBranch ''/repo'' ''feature/add-login'',
         Git (Branch ''feature/add-login''), Git (Checkout ''feature/add-login''),
         Backend (ScanProject [''.''] ''/repo''),
         Backend (CallLLM ''Add login'' ''/repo'' sample_files [''.'']),
         Prompt_confirm ''new.ts'' Confirm_yes, Prompt_confirm ''old.ts'' Confirm_abort,
         Git (Checkout ''main''),
         Console_error ''Error during generation: pathspec did not match''],
        Failed ''pathspec did not match'')"
  by code_simp

text \<open>
  C6, amended. In every run in which the user aborts after \<^verbatim>\<open>createBranch\<close> was called
  with a non-empty name, the original branch being known and its name non-empty, the
  prompt that returned abort is followed by a checkout of the original branch. When the
  checkout succeeds the run ends as aborted; when it fails the error is reported and the
  run ends as failed.
\<close>

theorem abort_reverts_branch:
  assumes abort: "Prompt_confirm p Confirm_abort \<in> set (fst (generate w prompt options0))"
    and created: "Call_createBranch r n \<in> set (fst (generate w prompt options0))"
    and names: "n \<noteq> []" "getCurrentBranch w = Some ob" "ob \<noteq> []"
  shows "(\<exists>pre q. fst (generate w prompt options0)
                    = pre @ [Prompt_confirm q Confirm_abort, Git (Checkout ob)]
                        @ (case git_checkout w Revert ob of
                             Inl e \<Rightarrow> [Console_error (''Error during generation: '' @ e)]
                           | Inr u \<Rightarrow> []))
         \<and> snd (generate w prompt options0)
             = (case git_checkout w Revert ob of Inl e \<Rightarrow> Failed e | Inr u \<Rightarrow> Aborted)"
proof -
  from generate_cases [of w prompt options0] show ?thesis
  proof (elim disjE conjE exE)
    assume "list_all is_early (fst (generate w prompt options0))"
    from early_quiet [OF this, of p Confirm_abort] abort show ?thesis by simp
  next
    fix evs1 opts1 g ob' files and llm :: LLMOutput
    let ?pre = "evs1 @ [Backend (ScanProject (allScanPaths options0) (root_of w options0)),
                        Backend (CallLLM prompt (root_of w options0) files (allScanPaths options0))]"
    let ?raa = "review_and_apply w (yes options0) (root_of w options0) opts1 g ob'
                  (originalFileContents files) (changes llm)"
    assume pre: "list_all is_early ?pre"
      and gen: "generate w prompt options0 = prepend ?pre ?raa"
      and pf: "preflight w prompt (root_of w options0) options0 = (evs1, Inr (opts1, g, ob'))"
    obtain evs st ab
      where rv: "review w (yes options0) (root_of w options0) (originalFileContents files) 0
                   (changes llm) (state0 opts1) = (evs, st, ab)"
      by (cases "review w (yes options0) (root_of w options0) (originalFileContents files) 0
                   (changes llm) (state0 opts1)")
    note pq = early_quiet [OF pre, of p Confirm_abort]
    have "Prompt_confirm p Confirm_abort \<in> set (fst ?raa)"
      using abort gen pq by simp
    then have "Prompt_confirm p Confirm_abort \<in> set evs"
      using review_and_apply_calls(4) [OF rv] by simp
    then have ab: ab
      using review_abort_flag [of p w "yes options0" "root_of w options0"
              "originalFileContents files" 0 "changes llm" "state0 opts1"] rv
      by simp
    from review_abort_last [of w "yes options0" "root_of w options0"
              "originalFileContents files" 0 "changes llm" "state0 opts1"] rv ab
    obtain pre' q where evs: "evs = pre' @ [Prompt_confirm q Confirm_abort]"
      by auto
    have "Call_createBranch r n \<in> set evs1"
      using created gen review_and_apply_calls(5) [OF rv, of r n g ob'] by simp
    from preflight_branch_created [OF pf this]
    have b: "g" "\<not> noGit opts1" "or_empty (branch opts1) = n" "ob' = Some ob"
      using names by simp_all
    have "truthy_opt (branch opts1)"
      using b(3) names(1) by (cases "branch opts1") (simp_all add: or_empty_def truthy_opt_def truthy_def)
    then have rb: "revert_branch w opts1 g ob'
                     = ([Git (Checkout ob)], git_checkout w Revert ob)"
      using b names by (simp add: revert_branch_def truthy_opt_def truthy_def or_empty_def)
    have raa: "?raa = (case git_checkout w Revert ob of
                         Inl e \<Rightarrow> fail (evs @ [Git (Checkout ob)]) e
                       | Inr u \<Rightarrow> (evs @ [Git (Checkout ob)], Aborted))"
      using review_and_apply_aborted [of w "yes options0" "root_of w options0"
              "originalFileContents files" "changes llm" opts1 evs st g ob'] rv ab rb
      by simp
    have "fst (generate w prompt options0)
            = (?pre @ pre') @ [Prompt_confirm q Confirm_abort, Git (Checkout ob)]
                @ (case git_checkout w Revert ob of
                     Inl e \<Rightarrow> [Console_error (''Error during generation: '' @ e)]
                   | Inr u \<Rightarrow> [])"
      using gen raa evs by (cases "git_checkout w Revert ob") (simp_all add: fail_def)
    moreover have "snd (generate w prompt options0)
             = (case git_checkout w Revert ob of Inl e \<Rightarrow> Failed e | Inr u \<Rightarrow> Aborted)"
      using gen raa by (cases "git_checkout w Revert ob") (simp_all add: fail_def)
    ultimately show ?thesis by blast
  qed
qed

text \<open>
  The aborted run of the sample world, with a checkout that succeeds.
\<close>

theorem abort_reverts_branch_witness:
  "Prompt_confirm ''old.ts'' Confirm_abort
     \<in> set (fst (generate world_abort ''Add login'' options_sample))
   \<and> Call_createBranch ''/repo'' ''feature/add-login''
     \<in> set (fst (generate world_abort ''Add login'' options_sample))
   \<and> getCurrentBranch world_abort = Some ''main''
   \<and> git_checkout world_abort Revert ''main'' = Inr ()
   \<and> snd (generate world_abort ''Add login'' options_sample) = Aborted"
proof -
  have h: "Prompt_confirm ''old.ts'' Confirm_abort
             \<in> set (fst (generate world_abort ''Add login'' options_sample))"
    by (simp add: run_abort_sample)
  have c: "Call_createBranch ''/repo'' ''feature/add-login''
             \<in> set (fst (generate world_abort ''Add login'' options_sample))"
    by (simp add: run_abort_sample)
  have n: "''feature/add-login'' \<noteq> []" "''main'' \<noteq> []"
    by simp_all
  have b: "getCurrentBranch world_abort = Some ''main''"
    by code_simp
  have k: "git_checkout world_abort Revert ''main'' = Inr ()"
    by code_simp
  from abort_reverts_branch [OF h c n(1) b n(2)] h c b k show ?thesis by simp
qed

section \<open>Malformed changes\<close>

text \<open>
  The claim C7 says that a change with an unknown action, or an add without content, is
  rejected with an error. \<^verbatim>\<open>applyFileChange\<close> returns normally for both.
\<close>

theorem applyFileChange_accepts_counterexample:
  "applyFileChange world0 0 ''/repo'' change_rename
     = ([Console_warn ''Unknown action type for change: rename. Skipping.''], Inr ())
   \<and> applyFileChange world0 0 ''/repo'' change_add_empty
     = ([Backend (CreateFile ''/repo/empty.ts'' False [])], Inr ())"
  by code_simp

text \<open>
  C7, amended. \<^verbatim>\<open>applyFileChange\<close> rejects no change: for an action other than add,
  modify and delete it writes a warning, sends nothing to the backend and returns
  normally; an add or modify without new content is sent to the backend with the empty
  string as content.
\<close>

theorem applyFileChange_never_rejects:
  "(action change \<noteq> ''add'' \<and> action change \<noteq> ''modify'' \<and> action change \<noteq> ''delete''
      \<longrightarrow> applyFileChange w k root change
            = ([Console_warn (''Unknown action type for change: '' @ action change
                               @ ''. Skipping.'')], Inr ()))
   \<and> (action change = ''add'' \<and> newContent change = None
      \<longrightarrow> applyFileChange w k root change
            = ([Backend (CreateFile (path_resolve w root (ProposedFileChange.filePath change))
                           False [])],
               createFile w k (path_resolve w root (ProposedFileChange.filePath change)) False []))
   \<and> (action change = ''modify'' \<and> newContent change = None
      \<longrightarrow> applyFileChange w k root change
            = ([Backend (WriteFile (path_resolve w root (ProposedFileChange.filePath change)) [])],
               writeFile w k (path_resolve w root (ProposedFileChange.filePath change)) []))"
  by (simp add: applyFileChange_def or_empty_def Let_def)

text \<open>
  A rename, an add without content and a modify without content.
\<close>

theorem applyFileChange_never_rejects_witness:
  "action change_rename \<noteq> ''add'' \<and> action change_rename \<noteq> ''modify''
   \<and> action change_rename \<noteq> ''delete''
   \<and> applyFileChange world0 0 ''/repo'' change_rename
       = ([Console_warn (''Unknown action type for change: '' @ action change_rename
                          @ ''. Skipping.'')], Inr ())
   \<and> action change_add_empty = ''add'' \<and> newContent change_add_empty = None
   \<and> applyFileChange world0 0 ''/repo'' change_add_empty
       = ([Backend (CreateFile
                      (path_resolve world0 ''/repo'' (ProposedFileChange.filePath change_add_empty))
                      False [])],
          createFile world0 0
            (path_resolve world0 ''/repo'' (ProposedFileChange.filePath change_add_empty))
            False [])
   \<and> action change_modify_empty = ''modify'' \<and> newContent change_modify_empty = None
   \<and> applyFileChange world0 0 ''/repo'' change_modify_empty
       = ([Backend (WriteFile
                      (path_resolve world0 ''/repo''
                         (ProposedFileChange.filePath change_modify_empty)) [])],
          writeFile world0 0
            (path_resolve world0 ''/repo'' (ProposedFileChange.filePath change_modify_empty))
            [])"
proof -
  have r: "action change_rename \<noteq> ''add'' \<and> action change_rename \<noteq> ''modify''
             \<and> action change_rename \<noteq> ''delete''"
    by (simp add: change_rename_def)
  have a: "action change_add_empty = ''add'' \<and> newContent change_add_empty = None"
    by (simp add: change_add_empty_def)
  have m: "action change_modify_empty = ''modify'' \<and> newContent change_modify_empty = None"
    by (simp add: change_modify_empty_def)
  from applyFileChange_never_rejects [of change_rename world0 0 "''/repo''"]
    applyFileChange_never_rejects [of change_add_empty world0 0 "''/repo''"]
    applyFileChange_never_rejects [of change_modify_empty world0 0 "''/repo''"]
    r a m
  show ?thesis by simp
qed

section \<open>The loop over the confirmed changes\<close>

lemma apply_loop_append:
  "apply_loop w root k (cs @ ds) = apply_loop w root k cs @ apply_loop w root (k + length cs) ds"
  by (induction cs arbitrary: k) (auto split: prod.splits)

lemma apply_loop_reports:
  "j < length cs \<Longrightarrow> snd (applyFileChange w (k + j) root (cs ! j)) = Inl message \<Longrightarrow>
     Console_error (''Failed to apply change for '' @ ProposedFileChange.filePath (cs ! j)
                      @ '': '' @ message) \<in> set (apply_loop w root k cs)"
proof (induction cs arbitrary: k j)
  case Nil
  then show ?case by simp
next
  case (Cons change rest)
  obtain evs r where a: "applyFileChange w k root change = (evs, r)"
    by (cases "applyFileChange w k root change")
  show ?case
  proof (cases j)
    case 0
    with Cons.prems a show ?thesis by simp
  next
    case (Suc j')
    with Cons.prems Cons.IH [of j' "Suc k"] a show ?thesis by simp
  qed
qed

text \<open>
  C8. The loop over the confirmed changes calls \<^verbatim>\<open>applyFileChange\<close> for every change of
  the list, in the order of the list, whatever the calls answer: the loop over a list
  followed by another is the loop over the first followed by the loop over the second.
  Every failed call is reported on \<^verbatim>\<open>console.error\<close> with the path of the change and
  the message of the error.
\<close>

theorem apply_loop_attempts_every_change:
  "apply_calls (apply_loop w root k cs) = cs
   \<and> apply_loop w root k (cs @ ds)
       = apply_loop w root k cs @ apply_loop w root (k + length cs) ds
   \<and> (\<forall>j message. j < length cs \<and> snd (applyFileChange w (k + j) root (cs ! j)) = Inl message
         \<longrightarrow> Console_error (''Failed to apply change for ''
                 @ ProposedFileChange.filePath (cs ! j) @ '': '' @ message)
               \<in> set (apply_loop w root k cs))"
  using apply_loop_calls [of w root k cs] apply_loop_append [of w root k cs ds]
    apply_loop_reports [of _ cs w k root]
  by blast

text \<open>
  The backend refuses the first of two changes.
\<close>

theorem apply_loop_attempts_every_change_witness:
  "apply_calls (apply_loop world_create_fails ''/repo'' 0 [change_add, change_delete])
     = [change_add, change_delete]
   \<and> snd (applyFileChange world_create_fails 0 ''/repo'' change_add)
       = Inl ''Backend Error (500): disk full''
   \<and> Console_error (''Failed to apply change for '' @ ProposedFileChange.filePath change_add
                      @ '': '' @ ''Backend Error (500): disk full'')
       \<in> set (apply_loop world_create_fails ''/repo'' 0 [change_add, change_delete])"
proof -
  have f: "snd (applyFileChange world_create_fails (0 + 0) ''/repo''
                  ([change_add, change_delete] ! 0))
             = Inl ''Backend Error (500): disk full''"
    by code_simp
  have l: "(0::nat) < length [change_add, change_delete]"
    by simp
  from apply_loop_attempts_every_change
         [of world_create_fails "''/repo''" 0 "[change_add, change_delete]" "[]"] f l
  have "apply_calls (apply_loop world_create_fails ''/repo'' 0 [change_add, change_delete])
          = [change_add, change_delete]"
    and "Console_error (''Failed to apply change for ''
            @ ProposedFileChange.filePath ([change_add, change_delete] ! 0)
            @ '': '' @ ''Backend Error (500): disk full'')
          \<in> set (apply_loop world_create_fails ''/repo'' 0 [change_add, change_delete])"
    by blast+
  with f show ?thesis by simp
qed

section \<open>Modifications of files that were not scanned\<close>

text \<open>
  C10. For a change with action modify whose path the scan did not return, the diff is
  computed against the empty string. Where the diff library answers with the new content
  as one added part, every line of it is shown with the prefix of an addition. Where the
  new content is empty or missing, and the library reports equal texts as unchanged, the
  review loop passes the change over and \<^verbatim>\<open>applyFileChange\<close> is never called with it.
\<close>

theorem absent_modify_against_empty:
  assumes "action change = ''modify''"
    and "scanProject w (allScanPaths options0) (root_of w options0) = Inr files"
    and "originalFileContents files (ProposedFileChange.filePath change) = None"
  shows "present w (originalFileContents files) change
           = (let diff = generateUnifiedDiff w [] (or_empty (newContent change))
              in if truthy diff then ([Show_diff diff], False) else ([], True))
         \<and> (\<forall>part. diffLines w [] (or_empty (newContent change)) = [part]
                \<and> val part = or_empty (newContent change) \<and> added part = Some True
              \<longrightarrow> generateUnifiedDiff w [] (or_empty (newContent change))
                    = chalk w Green
                        (join [newline]
                           (map (\<lambda>line. ''+ '' @ line)
                              (split_on newline (or_empty (newContent change))))))
         \<and> (or_empty (newContent change) = [] \<and> diffLines_identity w []
              \<longrightarrow> review w ac root (originalFileContents files) i (change # rest) st
                    = review w ac root (originalFileContents files) (Suc i) rest st
                  \<and> change \<notin> set (apply_calls (fst (generate w prompt options0))))"
proof (intro conjI allI impI)
  show "present w (originalFileContents files) change
           = (let diff = generateUnifiedDiff w [] (or_empty (newContent change))
              in if truthy diff then ([Show_diff diff], False) else ([], True))"
    using assms(1,3) by (simp add: present_def or_empty_def)
next
  fix part :: Change
  assume "diffLines w [] (or_empty (newContent change)) = [part]
            \<and> val part = or_empty (newContent change) \<and> added part = Some True"
  then show "generateUnifiedDiff w [] (or_empty (newContent change))
               = chalk w Green
                   (join [newline]
                      (map (\<lambda>line. ''+ '' @ line)
                         (split_on newline (or_empty (newContent change)))))"
    by (simp add: generateUnifiedDiff_def render_part_def part_colour_def part_prefix_def
          flag_def del: append_Cons)
next
  assume e: "or_empty (newContent change) = [] \<and> diffLines_identity w []"
  then have d: "generateUnifiedDiff w [] [] = []"
    by (simp add: generateUnifiedDiff_identity)
  have p: "present w (originalFileContents files) change = ([], True)"
    using assms(1,3) e d by (simp add: present_def or_empty_def truthy_def)
  show "review w ac root (originalFileContents files) i (change # rest) st
          = review w ac root (originalFileContents files) (Suc i) rest st"
    using review_skip [OF p] .
  show "change \<notin> set (apply_calls (fst (generate w prompt options0)))"
    using noop_never_applied [OF assms(2), of change prompt] p by simp
qed

text \<open>
  A modification of a file that was not scanned, once without and once with content.
\<close>

theorem absent_modify_against_empty_witness:
  "action change_ghost = ''modify''
   \<and> originalFileContents sample_files (ProposedFileChange.filePath change_ghost) = None
   \<and> or_empty (newContent change_ghost) = [] \<and> diffLines_identity world0 []
   \<and> present world0 (originalFileContents sample_files) change_ghost = ([], True)
   \<and> review world0 False ''/repo'' (originalFileContents sample_files) 0 [change_ghost]
         (state0 options_sample)
       = review world0 False ''/repo'' (originalFileContents sample_files) (Suc 0) []
           (state0 options_sample)
   \<and> change_ghost \<notin> set (apply_calls (fst (generate world0 ''Add login'' options_sample)))
   \<and> diffLines world0 [] (or_empty (newContent change_ghost_text))
       = [\<lparr>val = ''let g = 2'', added = Some True, removed = None\<rparr>]
   \<and> generateUnifiedDiff world0 [] (or_empty (newContent change_ghost_text))
       = ''+ let g = 2''"
proof -
  have a: "action change_ghost = ''modify''" "action change_ghost_text = ''modify''"
    by (simp_all add: change_ghost_def change_ghost_text_def)
  have o: "originalFileContents sample_files (ProposedFileChange.filePath change_ghost) = None"
    "originalFileContents sample_files (ProposedFileChange.filePath change_ghost_text) = None"
    by (simp_all add: originalFileContents_def sample_files_def change_ghost_def
          change_ghost_text_def)
  have e: "or_empty (newContent change_ghost) = []"
    by (simp add: change_ghost_def or_empty_def)
  have d: "diffLines_identity world0 []"
    by (simp add: diffLines_identity_def world0_def diffLines_sample_def)
  have t: "diffLines world0 [] (or_empty (newContent change_ghost_text))
             = [\<lparr>val = ''let g = 2'', added = Some True, removed = None\<rparr>]"
    by (simp add: world0_def diffLines_sample_def change_ghost_text_def or_empty_def)
  have v: "val \<lparr>val = ''let g = 2'', added = Some True, removed = None\<rparr>
             = or_empty (newContent change_ghost_text)
           \<and> added \<lparr>val = ''let g = 2'', added = Some True, removed = None\<rparr> = Some True"
    by (simp add: change_ghost_text_def or_empty_def)
  have g: "generateUnifiedDiff world0 [] [] = []"
    using d by (rule generateUnifiedDiff_identity)
  have c: "chalk world0 Green
             (join [newline]
                (map (\<lambda>line. ''+ '' @ line)
                   (split_on newline (or_empty (newContent change_ghost_text)))))
           = ''+ let g = 2''"
    by code_simp
  note inst_empty = absent_modify_against_empty [OF a(1) sample_scan o(1), of False "''/repo''" 0
                 "[]" "state0 options_sample" "''Add login''"]
  note inst_text = absent_modify_against_empty [OF a(2) sample_scan o(2), of False "''/repo''" 0
                 "[]" "state0 options_sample" "''Add login''"]
  have p: "present world0 (originalFileContents sample_files) change_ghost = ([], True)"
    using inst_empty [THEN conjunct1] e g by (simp add: truthy_def)
  have r: "review world0 False ''/repo'' (originalFileContents sample_files) 0 [change_ghost]
               (state0 options_sample)
             = review world0 False ''/repo'' (originalFileContents sample_files) (Suc 0) []
                 (state0 options_sample)
           \<and> change_ghost
               \<notin> set (apply_calls (fst (generate world0 ''Add login'' options_sample)))"
    using inst_empty [THEN conjunct2, THEN conjunct2] e d by blast
  have u: "generateUnifiedDiff world0 [] (or_empty (newContent change_ghost_text))
             = ''+ let g = 2''"
    using inst_text [THEN conjunct2, THEN conjunct1, rule_format, OF conjI [OF t v]]
    by (simp only: c)
  from a(1) o(1) e d p r t u show ?thesis by blast
qed

end
